theory Spec2Isabelle
  imports Complex_Main
begin

section \<open>Exceptions\<close>

text \<open>
  The exception classes that the control flow of \<open>hilightingble.py\<close> tells apart.
  \<open>BleakNotFoundError\<close> and \<open>BleakDBusError\<close> are named by the retry wrapper;
  \<open>ValueError\<close> is what \<open>bytearray\<close> raises for an element outside \<open>range(256)\<close>;
  \<open>OverflowError\<close> is what the conversions between \<open>int\<close> and \<open>float\<close> raise;
  \<open>AttributeError\<close> is an attribute access on \<open>None\<close>. The remaining classes stand
  for whatever else the Bluetooth stack may raise.
\<close>

datatype exn =
    BleakNotFoundError
  | BleakDBusError
  | BleakError
  | TimeoutError
  | AttributeError
  | ValueError
  | OverflowError

section \<open>Python arithmetic: \<open>int(n * c)\<close> for an int \<open>n\<close> and a float literal \<open>c\<close>\<close>

text \<open>
  A finite IEEE-754 binary64 value is a pair \<open>(m, e)\<close> standing for \<open>m * 2^e\<close>.
  Results are rounded to 53 significant bits, ties to even; a result whose magnitude
  reaches \<open>2^1024\<close> is not finite (\<open>None\<close>). An int is at least 1 in magnitude or is 0
  and both literals are above \<open>2^-5\<close>, so the subnormal range is never reached.
\<close>

type_synonym double = "int \<times> int"

fun bit_length :: "nat \<Rightarrow> nat" where
  "bit_length n = (if n = 0 then 0 else Suc (bit_length (n div 2)))"

declare bit_length.simps [simp del]

definition round_half_even :: "int \<Rightarrow> nat \<Rightarrow> int" where
  \<comment> \<open>\<open>m / 2^k\<close> rounded to the nearest integer, a tie going to the even neighbour\<close>
  "round_half_even m k =
     (let q = m div 2 ^ k; r = m mod 2 ^ k in
      if 2 * r < 2 ^ k then q
      else if 2 * r > 2 ^ k then q + 1
      else if even q then q else q + 1)"

definition round53 :: "int \<Rightarrow> int \<Rightarrow> double option" where
  \<comment> \<open>the binary64 value nearest to \<open>m * 2^e\<close>, \<open>None\<close> when it is not finite\<close>
  "round53 m e =
     (let l = bit_length (nat \<bar>m\<bar>);
          (m', e') = (if l \<le> 53 then (m, e)
                      else (round_half_even m (l - 53), e + int (l - 53)))
      in if int (bit_length (nat \<bar>m'\<bar>)) + e' > 1024 then None else Some (m', e'))"

definition float_of_int :: "int \<Rightarrow> exn + double" where
  \<comment> \<open>the implicit conversion of the int operand of \<open>n * c\<close>\<close>
  "float_of_int n = (case round53 n 0 of None \<Rightarrow> Inl OverflowError | Some x \<Rightarrow> Inr x)"

definition int_times_float :: "int \<Rightarrow> double \<Rightarrow> exn + double option" where
  \<comment> \<open>\<open>n * c\<close>; \<open>Inr None\<close> is an infinite product\<close>
  "int_times_float n c =
     (case float_of_int n of
        Inl err \<Rightarrow> Inl err
      | Inr (m, e) \<Rightarrow> Inr (round53 (m * fst c) (e + snd c)))"

definition int_of_float :: "double option \<Rightarrow> exn + int" where
  \<comment> \<open>\<open>int(x)\<close>: truncation towards zero; an infinity raises\<close>
  "int_of_float x =
     (case x of
        None \<Rightarrow> Inl OverflowError
      | Some (m, e) \<Rightarrow>
          Inr (if 0 \<le> e then m * 2 ^ nat e
               else sgn m * (\<bar>m\<bar> div 2 ^ nat (- e))))"

definition float_0_06 :: double where
  \<comment> \<open>the literal \<open>0.06\<close>, \<open>0x1.eb851eb851eb8p-5\<close>\<close>
  "float_0_06 = (8646911284551352, - 57)"

definition float_2_55 :: double where
  \<comment> \<open>the literal \<open>2.55\<close>, \<open>0x1.4666666666666p+1\<close>\<close>
  "float_2_55 = (5742089524897382, - 51)"

definition brightness_byte :: "int \<Rightarrow> exn + int" where
  \<comment> \<open>\<open>min(int(brightness * 0.06), 0x0f)\<close>\<close>
  "brightness_byte brightness =
     (case int_times_float brightness float_0_06 of
        Inl err \<Rightarrow> Inl err
      | Inr x \<Rightarrow> (case int_of_float x of
                    Inl err \<Rightarrow> Inl err
                  | Inr v \<Rightarrow> Inr (min v 0x0f)))"

definition speed_byte :: "int \<Rightarrow> exn + int" where
  \<comment> \<open>\<open>min(max(int(speed * 2.55), 0), 255)\<close>\<close>
  "speed_byte speed =
     (case int_times_float speed float_2_55 of
        Inl err \<Rightarrow> Inl err
      | Inr x \<Rightarrow> (case int_of_float x of
                    Inl err \<Rightarrow> Inl err
                  | Inr v \<Rightarrow> Inr (min (max v 0) 255)))"

definition bytearray :: "int list \<Rightarrow> exn + int list" where
  \<comment> \<open>\<open>bytearray([...])\<close>: every element must be in \<open>range(256)\<close>\<close>
  "bytearray xs = (if list_all (\<lambda>x. 0 \<le> x \<and> x < 256) xs then Inr xs else Inl ValueError)"

section \<open>Constants of the module\<close>

definition str :: "nat \<Rightarrow> string" where
  \<comment> \<open>the decimal text of \<open>i\<close> for \<open>i\<close> in \<open>range(10)\<close>, as the f-string formats it\<close>
  "str i = [''0123456789'' ! i]"

definition EFFECT_MAP :: "string \<rightharpoonup> int" where
  \<comment> \<open>\<open>{f"Effect {i}": i for i in range(10)}\<close>\<close>
  "EFFECT_MAP = map_of (map (\<lambda>i. (''Effect '' @ str i, int i)) [0..<10])"

text \<open>
  Modelled from the spec: \<open>EFFECT_OFF\<close> and \<open>ColorMode\<close> are imported from
  \<open>homeassistant.components.light\<close>, which is not part of the repository; the spec gives
  the reported effect after a colour command as "off".
\<close>

definition EFFECT_OFF :: string where
  "EFFECT_OFF = ''off''"

datatype ColorMode = UNKNOWN | ONOFF | BRIGHTNESS | COLOR_TEMP | HS | XY | RGB | RGBW | RGBWW | WHITE

definition WRITE_CHARACTERISTIC_UUID :: string where
  "WRITE_CHARACTERISTIC_UUID = ''6e400002-b5a3-f393-e0a9-e50e24dcca9e''"

definition FIRMWARE_REVISION_UUID :: string where
  "FIRMWARE_REVISION_UUID = ''00002a26-0000-1000-8000-00805f9b34fb''"

definition SW_NUMBER_UUID :: string where
  "SW_NUMBER_UUID = ''00002a28-0000-1000-8000-00805f9b34fb''"

definition MANUFACTURER_NAME_UUID :: string where
  "MANUFACTURER_NAME_UUID = ''00002a29-0000-1000-8000-00805f9b34fb''"

definition DEFAULT_ATTEMPTS :: nat where
  "DEFAULT_ATTEMPTS = 3"

definition BLEAK_BACKOFF_TIME :: rat where
  \<comment> \<open>seconds\<close>
  "BLEAK_BACKOFF_TIME = 25 / 100"

definition RETRY_BACKOFF_EXCEPTIONS :: "exn set" where
  "RETRY_BACKOFF_EXCEPTIONS = {BleakDBusError}"

section \<open>The instance and its surroundings\<close>

type_synonym characteristic = nat

type_synonym services = "(string \<times> characteristic) list"

definition get_characteristic :: "services \<Rightarrow> string \<Rightarrow> characteristic option" where
  \<comment> \<open>\<open>services.get_characteristic(uuid)\<close>: the characteristic, or \<open>None\<close>\<close>
  "get_characteristic svc uuid = map_of svc uuid"

record client =
  services :: services

text \<open>
  The fields of \<open>HILIGHTINGInstance\<close> that its methods read or write, without the leading
  underscore. A timer handle is the number of the \<open>call_later\<close> call that made it.
\<close>

record HILIGHTINGInstance =
  delay :: int
  client :: "client option"
  cached_services :: "services option"
  expected_disconnect :: bool
  disconnect_timer :: "nat option"
  is_on :: bool
  rgb_color :: "int \<times> int \<times> int"
  brightness :: int
  effect :: string
  color_mode :: ColorMode
  write_uuid :: "characteristic option"
  manufacturer_name_char :: "characteristic option"
  firmware_revision_char :: "characteristic option"
  model_number_char :: "characteristic option"

text \<open>
  What the methods do to the world outside the instance: how many times each operation of
  the Bluetooth stack has been called, the packets the transport has acknowledged (with the
  characteristic they were written to), the timers made and cancelled, and the sleeps.
  \<open>attempts\<close> is instrumentation: it counts the invocations of a wrapped method by the
  retry wrapper. Log messages are not modelled.
\<close>

record world =
  established :: nat
  fetched :: nat
  polled :: nat
  write_calls :: nat
  written :: "(characteristic option \<times> int list) list"
  disconnects :: nat
  timers :: nat
  cancelled :: "nat list"
  sleeps :: "rat list"
  attempts :: nat

text \<open>
  The Bluetooth stack is outside the repository. Its behaviour is a parameter: the outcome
  of the \<open>k\<close>-th call of each operation, for every \<open>k\<close>, so that every sequence of
  outcomes is covered. \<open>BLEAK_EXCEPTIONS\<close> is the tuple \<open>BLEAK_RETRY_EXCEPTIONS\<close> imported
  from \<open>bleak_retry_connector\<close>, as the set of exception classes it holds.
\<close>

record env =
  BLEAK_EXCEPTIONS :: "exn set"
  establish_connection :: "nat \<Rightarrow> exn + client"
  client_get_services :: "nat \<Rightarrow> exn + services"
  client_is_connected :: "nat \<Rightarrow> bool"
  client_write_gatt_char :: "nat \<Rightarrow> exn option"
  client_disconnect :: "nat \<Rightarrow> exn option"

type_synonym link = "HILIGHTINGInstance \<times> world"

type_synonym outcome = "(exn + unit) \<times> link"

definition new_instance :: "int \<Rightarrow> HILIGHTINGInstance" where
  \<comment> \<open>\<open>__init__\<close>, once the device has been found\<close>
  "new_instance d =
     \<lparr>delay = d, client = None, cached_services = None, expected_disconnect = False,
      disconnect_timer = None, is_on = False, rgb_color = (255, 255, 255), brightness = 255,
      effect = EFFECT_OFF, color_mode = RGB, write_uuid = None,
      manufacturer_name_char = None, firmware_revision_char = None,
      model_number_char = None\<rparr>"

definition new_world :: world where
  "new_world =
     \<lparr>established = 0, fetched = 0, polled = 0, write_calls = 0, written = [],
      disconnects = 0, timers = 0, cancelled = [], sleeps = [], attempts = 0\<rparr>"

definition turn_on_cmd :: "int list" where
  \<comment> \<open>\<open>bytearray.fromhex("55 01 02 01")\<close>\<close>
  "turn_on_cmd = [0x55, 0x01, 0x02, 0x01]"

definition turn_off_cmd :: "int list" where
  \<comment> \<open>\<open>bytearray.fromhex("55 01 02 00")\<close>\<close>
  "turn_off_cmd = [0x55, 0x01, 0x02, 0x00]"

section \<open>Connection lifecycle\<close>

definition reset_disconnect_timer :: "link \<Rightarrow> link" where
  "reset_disconnect_timer = (\<lambda>(s, w).
     let w1 = (case disconnect_timer s of
                 Some h \<Rightarrow> w\<lparr>cancelled := cancelled w @ [h]\<rparr>
               | None \<Rightarrow> w);
         s1 = s\<lparr>expected_disconnect := False\<rparr>
     in if delay s1 \<noteq> 0
        then (s1\<lparr>disconnect_timer := Some (timers w1)\<rparr>, w1\<lparr>timers := timers w1 + 1\<rparr>)
        else (s1, w1))"

definition resolve_characteristics :: "services \<Rightarrow> HILIGHTINGInstance \<Rightarrow> bool \<times> HILIGHTINGInstance" where
  "resolve_characteristics svc s =
     (let s1 = s\<lparr>write_uuid := get_characteristic svc WRITE_CHARACTERISTIC_UUID,
                 manufacturer_name_char := get_characteristic svc MANUFACTURER_NAME_UUID,
                 firmware_revision_char := get_characteristic svc FIRMWARE_REVISION_UUID,
                 model_number_char := get_characteristic svc SW_NUMBER_UUID\<rparr>
      in (write_uuid s1 \<noteq> None \<and> manufacturer_name_char s1 \<noteq> None
            \<and> firmware_revision_char s1 \<noteq> None \<and> model_number_char s1 \<noteq> None, s1))"

definition client_connected :: "env \<Rightarrow> link \<Rightarrow> bool \<times> link" where
  \<comment> \<open>the test \<open>self._client and self._client.is_connected\<close>\<close>
  "client_connected E = (\<lambda>(s, w).
     case client s of
       None \<Rightarrow> (False, s, w)
     | Some c \<Rightarrow> (client_is_connected E (polled w), s, w\<lparr>polled := polled w + 1\<rparr>))"

definition store_client :: "client \<Rightarrow> link \<Rightarrow> link" where
  \<comment> \<open>the last three statements of \<open>_ensure_connected\<close>\<close>
  "store_client c = (\<lambda>(s, w).
     reset_disconnect_timer (s\<lparr>client := Some c, cached_services := Some (services c)\<rparr>, w))"

definition connect :: "env \<Rightarrow> link \<Rightarrow> outcome" where
  \<comment> \<open>\<open>_ensure_connected\<close> from \<open>establish_connection\<close> on\<close>
  "connect E = (\<lambda>(s, w).
     let w1 = w\<lparr>established := established w + 1\<rparr> in
     case establish_connection E (established w) of
       Inl err \<Rightarrow> (Inl err, s, w1)
     | Inr c \<Rightarrow>
         (let (ok, s1) = resolve_characteristics (services c) s in
          if ok then (Inr (), store_client c (s1, w1))
          else
            (let w2 = w1\<lparr>fetched := fetched w1 + 1\<rparr> in
             case client_get_services E (fetched w1) of
               Inl err \<Rightarrow> (Inl err, s1, w2)
             | Inr svc \<Rightarrow>
                 (let c1 = c\<lparr>services := svc\<rparr>;
                      (ok1, s2) = resolve_characteristics (services c1) s1
                  in (Inr (), store_client c1 (s2, w2))))))"

definition ensure_connected :: "env \<Rightarrow> link \<Rightarrow> outcome" where
  \<comment> \<open>the second test is the one made once the lock is held\<close>
  "ensure_connected E \<sigma> =
     (let (up, \<sigma>1) = client_connected E \<sigma> in
      if up then (Inr (), reset_disconnect_timer \<sigma>1)
      else
        (let (up1, \<sigma>2) = client_connected E \<sigma>1 in
         if up1 then (Inr (), reset_disconnect_timer \<sigma>2)
         else connect E \<sigma>2))"

definition write_data :: "env \<Rightarrow> int list \<Rightarrow> link \<Rightarrow> outcome" where
  "write_data E data \<sigma> =
     (case ensure_connected E \<sigma> of
        (Inl err, \<sigma>1) \<Rightarrow> (Inl err, \<sigma>1)
      | (Inr u, (s1, w1)) \<Rightarrow>
          (case client s1 of
             None \<Rightarrow> (Inl AttributeError, s1, w1)
           | Some c \<Rightarrow>
               (let w2 = w1\<lparr>write_calls := write_calls w1 + 1\<rparr> in
                case client_write_gatt_char E (write_calls w1) of
                  Some err \<Rightarrow> (Inl err, s1, w2)
                | None \<Rightarrow> (Inr (), s1, w2\<lparr>written := written w2 @ [(write_uuid s1, data)]\<rparr>))))"

definition execute_disconnect :: "env \<Rightarrow> link \<Rightarrow> outcome" where
  "execute_disconnect E \<sigma> =
     (let (up, (s1, w1)) = client_connected E \<sigma> in
      if up then
        (let s2 = s1\<lparr>expected_disconnect := True\<rparr>;
             w2 = w1\<lparr>disconnects := disconnects w1 + 1\<rparr>
         in case client_disconnect E (disconnects w1) of
              Some err \<Rightarrow> (Inl err, s2, w2)
            | None \<Rightarrow> (Inr (), s2\<lparr>client := None, write_uuid := None\<rparr>, w2))
      else (Inr (), s1\<lparr>client := None, write_uuid := None\<rparr>, w1))"

section \<open>The retry wrapper\<close>

definition count_attempt :: "link \<Rightarrow> link" where
  "count_attempt = (\<lambda>(s, w). (s, w\<lparr>attempts := attempts w + 1\<rparr>))"

definition sleep :: "rat \<Rightarrow> link \<Rightarrow> link" where
  \<comment> \<open>\<open>await asyncio.sleep(t)\<close>\<close>
  "sleep t = (\<lambda>(s, w). (s, w\<lparr>sleeps := sleeps w @ [t]\<rparr>))"

fun retry_loop :: "env \<Rightarrow> (link \<Rightarrow> outcome) \<Rightarrow> nat list \<Rightarrow> link \<Rightarrow> outcome" where
  "retry_loop E func [] \<sigma> = (Inr (), \<sigma>)"
| "retry_loop E func (attempt # rest) \<sigma> =
     (case func (count_attempt \<sigma>) of
        (Inr u, \<sigma>1) \<Rightarrow> (Inr u, \<sigma>1)
      | (Inl err, \<sigma>1) \<Rightarrow>
          if err = BleakNotFoundError then (Inl err, \<sigma>1)
          else if err \<in> RETRY_BACKOFF_EXCEPTIONS then
            (if attempt = DEFAULT_ATTEMPTS - 1 then (Inl err, \<sigma>1)
             else retry_loop E func rest (sleep BLEAK_BACKOFF_TIME \<sigma>1))
          else if err \<in> BLEAK_EXCEPTIONS E then
            (if attempt = DEFAULT_ATTEMPTS - 1 then (Inl err, \<sigma>1)
             else retry_loop E func rest (sleep BLEAK_BACKOFF_TIME \<sigma>1))
          else (Inl err, \<sigma>1))"

definition retry_bluetooth_connection_error :: "env \<Rightarrow> (link \<Rightarrow> outcome) \<Rightarrow> link \<Rightarrow> outcome" where
  "retry_bluetooth_connection_error E func \<sigma> = retry_loop E func [0..<DEFAULT_ATTEMPTS] \<sigma>"

section \<open>The commands\<close>

definition turn_on_func :: "env \<Rightarrow> link \<Rightarrow> outcome" where
  "turn_on_func E \<sigma> =
     (case write_data E turn_on_cmd \<sigma> of
        (Inl err, \<sigma>1) \<Rightarrow> (Inl err, \<sigma>1)
      | (Inr u, (s1, w1)) \<Rightarrow> (Inr (), s1\<lparr>is_on := True\<rparr>, w1))"

definition turn_off_func :: "env \<Rightarrow> link \<Rightarrow> outcome" where
  "turn_off_func E \<sigma> =
     (case write_data E turn_off_cmd \<sigma> of
        (Inl err, \<sigma>1) \<Rightarrow> (Inl err, \<sigma>1)
      | (Inr u, (s1, w1)) \<Rightarrow> (Inr (), s1\<lparr>is_on := False\<rparr>, w1))"

definition set_rgb_color_func :: "env \<Rightarrow> int \<times> int \<times> int \<Rightarrow> link \<Rightarrow> outcome" where
  "set_rgb_color_func E rgb = (\<lambda>(s, w).
     let s1 = s\<lparr>rgb_color := rgb\<rparr> in
     case bytearray [0x55, 0x07, 0x01, fst rgb, fst (snd rgb), snd (snd rgb)] of
       Inl err \<Rightarrow> (Inl err, s1, w)
     | Inr packet \<Rightarrow>
         (case write_data E packet (s1, w) of
            (Inl err, \<sigma>2) \<Rightarrow> (Inl err, \<sigma>2)
          | (Inr u, (s2, w2)) \<Rightarrow> (Inr (), s2\<lparr>effect := EFFECT_OFF\<rparr>, w2)))"

definition set_brightness_func :: "env \<Rightarrow> int \<Rightarrow> link \<Rightarrow> outcome" where
  "set_brightness_func E b0 = (\<lambda>(s, w).
     let s1 = s\<lparr>brightness := b0\<rparr> in
     case brightness_byte b0 of
       Inl err \<Rightarrow> (Inl err, s1, w)
     | Inr b \<Rightarrow>
         (case bytearray [0x55, 0x03, 0x01, 0xff, b] of
            Inl err \<Rightarrow> (Inl err, s1, w)
          | Inr packet \<Rightarrow> write_data E packet (s1, w)))"

definition set_effect_func :: "env \<Rightarrow> string \<Rightarrow> link \<Rightarrow> outcome" where
  "set_effect_func E name \<sigma> =
     (case EFFECT_MAP name of
        None \<Rightarrow> (Inr (), \<sigma>)
      | Some effect_id \<Rightarrow>
          (case bytearray [0x55, 0x04, 0x01, effect_id] of
             Inl err \<Rightarrow> (Inl err, \<sigma>)
           | Inr packet \<Rightarrow>
               (case write_data E packet \<sigma> of
                  (Inl err, \<sigma>1) \<Rightarrow> (Inl err, \<sigma>1)
                | (Inr u, (s1, w1)) \<Rightarrow> (Inr (), s1\<lparr>effect := name\<rparr>, w1))))"

definition set_effect_speed_func :: "env \<Rightarrow> int \<Rightarrow> link \<Rightarrow> outcome" where
  "set_effect_speed_func E speed \<sigma> =
     (case speed_byte speed of
        Inl err \<Rightarrow> (Inl err, \<sigma>)
      | Inr b \<Rightarrow>
          (case bytearray [0x55, 0x04, 0x04, b] of
             Inl err \<Rightarrow> (Inl err, \<sigma>)
           | Inr packet \<Rightarrow> write_data E packet \<sigma>))"

definition turn_on :: "env \<Rightarrow> link \<Rightarrow> outcome" where
  "turn_on E = retry_bluetooth_connection_error E (turn_on_func E)"

definition turn_off :: "env \<Rightarrow> link \<Rightarrow> outcome" where
  "turn_off E = retry_bluetooth_connection_error E (turn_off_func E)"

definition set_rgb_color :: "env \<Rightarrow> int \<times> int \<times> int \<Rightarrow> link \<Rightarrow> outcome" where
  "set_rgb_color E rgb = retry_bluetooth_connection_error E (set_rgb_color_func E rgb)"

definition set_brightness :: "env \<Rightarrow> int \<Rightarrow> link \<Rightarrow> outcome" where
  "set_brightness E b0 = retry_bluetooth_connection_error E (set_brightness_func E b0)"

definition set_effect :: "env \<Rightarrow> string \<Rightarrow> link \<Rightarrow> outcome" where
  "set_effect E name = retry_bluetooth_connection_error E (set_effect_func E name)"

definition set_effect_speed :: "env \<Rightarrow> int \<Rightarrow> link \<Rightarrow> outcome" where
  "set_effect_speed E speed = retry_bluetooth_connection_error E (set_effect_speed_func E speed)"

text \<open>The six command operations with their arguments, to speak of all of them at once.\<close>

datatype command =
    TurnOn
  | TurnOff
  | SetColor "int \<times> int \<times> int"
  | SetBrightness int
  | SetEffect string
  | SetEffectSpeed int

fun command_func :: "env \<Rightarrow> command \<Rightarrow> link \<Rightarrow> outcome" where
  "command_func E TurnOn = turn_on_func E"
| "command_func E TurnOff = turn_off_func E"
| "command_func E (SetColor rgb) = set_rgb_color_func E rgb"
| "command_func E (SetBrightness b0) = set_brightness_func E b0"
| "command_func E (SetEffect name) = set_effect_func E name"
| "command_func E (SetEffectSpeed speed) = set_effect_speed_func E speed"

fun run :: "env \<Rightarrow> command \<Rightarrow> link \<Rightarrow> outcome" where
  "run E TurnOn = turn_on E"
| "run E TurnOff = turn_off E"
| "run E (SetColor rgb) = set_rgb_color E rgb"
| "run E (SetBrightness b0) = set_brightness E b0"
| "run E (SetEffect name) = set_effect E name"
| "run E (SetEffectSpeed speed) = set_effect_speed E speed"

definition recognized_transient :: "env \<Rightarrow> exn \<Rightarrow> bool" where
  \<comment> \<open>the exceptions that the wrapper's second and third handlers catch\<close>
  "recognized_transient E err \<longleftrightarrow>
     err \<noteq> BleakNotFoundError \<and> (err \<in> RETRY_BACKOFF_EXCEPTIONS \<or> err \<in> BLEAK_EXCEPTIONS E)"

definition reported ::
  "HILIGHTINGInstance \<Rightarrow> bool \<times> (int \<times> int \<times> int) \<times> int \<times> string \<times> ColorMode" where
  \<comment> \<open>the reported state: the five properties \<open>is_on\<close>, \<open>rgb_color\<close>, \<open>brightness\<close>,
      \<open>effect\<close>, \<open>color_mode\<close>\<close>
  "reported s = (is_on s, rgb_color s, brightness s, effect s, color_mode s)"

definition untouched :: "link \<Rightarrow> link \<Rightarrow> bool" where
  \<comment> \<open>what the connection lifecycle leaves alone\<close>
  "untouched \<sigma> \<sigma>' \<longleftrightarrow>
     reported (fst \<sigma>') = reported (fst \<sigma>) \<and> attempts (snd \<sigma>') = attempts (snd \<sigma>)
       \<and> sleeps (snd \<sigma>') = sleeps (snd \<sigma>) \<and> written (snd \<sigma>') = written (snd \<sigma>)"

section \<open>Sample surroundings\<close>

definition sample_services :: services where
  "sample_services =
     [(WRITE_CHARACTERISTIC_UUID, 1), (MANUFACTURER_NAME_UUID, 2),
      (FIRMWARE_REVISION_UUID, 3), (SW_NUMBER_UUID, 4)]"

definition steady_env :: env where
  \<comment> \<open>a stack on which every operation succeeds\<close>
  "steady_env =
     \<lparr>BLEAK_EXCEPTIONS = {BleakError, AttributeError, TimeoutError},
      establish_connection = (\<lambda>k. Inr \<lparr>services = sample_services\<rparr>),
      client_get_services = (\<lambda>k. Inr sample_services),
      client_is_connected = (\<lambda>k. True),
      client_write_gatt_char = (\<lambda>k. None),
      client_disconnect = (\<lambda>k. None)\<rparr>"

definition failing_write_env :: env where
  \<comment> \<open>a stack on which connecting succeeds and every write raises \<open>BleakDBusError\<close>\<close>
  "failing_write_env = steady_env\<lparr>client_write_gatt_char := (\<lambda>k. Some BleakDBusError)\<rparr>"

definition unknown_device_env :: env where
  \<comment> \<open>a stack on which the device is not found\<close>
  "unknown_device_env = steady_env\<lparr>establish_connection := (\<lambda>k. Inl BleakNotFoundError)\<rparr>"

definition failing_disconnect_env :: env where
  \<comment> \<open>a stack on which connecting and writing succeed and \<open>disconnect\<close> raises\<close>
  "failing_disconnect_env = steady_env\<lparr>client_disconnect := (\<lambda>k. Some BleakError)\<rparr>"

definition fresh :: link where
  \<comment> \<open>a new instance with the default delay of 30 seconds\<close>
  "fresh = (new_instance 30, new_world)"

definition connected :: link where
  \<comment> \<open>the instance after its first successful command\<close>
  "connected = snd (turn_on steady_env fresh)"

section \<open>The wire bytes of brightness and speed\<close>

lemma bit_length_bounds: "2 ^ k \<le> n \<Longrightarrow> n < 2 ^ Suc k \<Longrightarrow> bit_length n = Suc k"
proof (induction k arbitrary: n)
  case 0
  then have "n = 1" by simp
  then show ?case by (simp add: bit_length.simps)
next
  case (Suc k)
  have "2 ^ k \<le> n div 2" using Suc.prems(1) by simp
  moreover have "n div 2 < 2 ^ Suc k" using Suc.prems(2) by simp
  ultimately have "bit_length (n div 2) = Suc k" by (rule Suc.IH)
  moreover have "(0::nat) < 2 ^ Suc k" by simp
  then have "n \<noteq> 0" using Suc.prems(1) by linarith
  ultimately show ?case by (subst bit_length.simps) simp
qed

lemma bit_length_less: "n < 2 ^ k \<Longrightarrow> bit_length n \<le> k"
proof (induction k arbitrary: n)
  case 0
  then show ?case by (simp add: bit_length.simps)
next
  case (Suc k)
  show ?case
  proof (cases "n = 0")
    case True
    then show ?thesis by (simp add: bit_length.simps)
  next
    case False
    have "n div 2 < 2 ^ k" using Suc.prems by simp
    then have "bit_length (n div 2) \<le> k" by (rule Suc.IH)
    with False show ?thesis by (subst bit_length.simps) simp
  qed
qed

lemma round53_exact:
  assumes "\<bar>m\<bar> < 2 ^ 53" and "e \<le> 971"
  shows "round53 m e = Some (m, e)"
proof -
  have "nat \<bar>m\<bar> < 2 ^ 53" using assms(1) by (simp add: nat_less_iff)
  then have "bit_length (nat \<bar>m\<bar>) \<le> 53" by (rule bit_length_less)
  then show ?thesis using assms(2) by (simp add: round53_def Let_def)
qed

lemma round_half_even_bounds:
  assumes "0 \<le> m" and "m < 2 ^ (53 + k)"
  shows "0 \<le> round_half_even m k" and "round_half_even m k \<le> 2 ^ 53"
proof -
  have q0: "0 \<le> m div 2 ^ k" using assms(1) by (simp add: pos_imp_zdiv_nonneg_iff)
  have "m < 2 ^ 53 * 2 ^ k" using assms(2) by (simp add: power_add)
  moreover have d: "(0::int) < 2 ^ k" by simp
  moreover have "m div 2 ^ k * 2 ^ k \<le> m"
    using div_mult_mod_eq [of m "2 ^ k"] pos_mod_sign [OF d, of m] by linarith
  ultimately have "m div 2 ^ k * 2 ^ k < 2 ^ 53 * 2 ^ k" by linarith
  then have q1: "m div 2 ^ k < 2 ^ 53" using d by (simp only: mult_less_cancel_right_pos)
  show "0 \<le> round_half_even m k" using q0 by (simp add: round_half_even_def Let_def)
  show "round_half_even m k \<le> 2 ^ 53" using q1 by (simp add: round_half_even_def Let_def)
qed

lemma round53_shift:
  assumes "2 ^ (52 + k) \<le> m" and "m < 2 ^ (53 + k)" and "e + int k \<le> 900"
  shows "round53 m e = Some (round_half_even m k, e + int k)"
proof -
  have "(0::int) \<le> 2 ^ (52 + k)" by simp
  then have m0: "0 \<le> m" using assms(1) by linarith
  have "2 ^ (52 + k) \<le> nat \<bar>m\<bar>" using assms(1) m0 by (simp add: le_nat_iff)
  moreover have "nat \<bar>m\<bar> < 2 ^ Suc (52 + k)" using assms(2) m0 by (simp add: nat_less_iff)
  ultimately have l: "bit_length (nat \<bar>m\<bar>) = 53 + k" using bit_length_bounds by fastforce
  have "nat \<bar>round_half_even m k\<bar> < 2 ^ 54"
    using round_half_even_bounds [OF m0 assms(2)] by (simp add: nat_less_iff)
  then have "bit_length (nat \<bar>round_half_even m k\<bar>) \<le> 54" by (rule bit_length_less)
  moreover have "k = 0 \<Longrightarrow> round_half_even m k = m" by (simp add: round_half_even_def)
  ultimately show ?thesis using l assms(3) by (cases "k = 0") (simp_all add: round53_def Let_def)
qed

lemma int_of_product:
  assumes "0 \<le> n" and "n < 2 ^ 53"
    and "2 ^ (52 + k) \<le> n * M" and "n * M < 2 ^ (53 + k)" and "e + int k < 0"
  shows "int_times_float n (M, e) = Inr (Some (round_half_even (n * M) k, e + int k))"
    and "int_of_float (Some (round_half_even (n * M) k, e + int k)) =
           Inr (round_half_even (n * M) k div 2 ^ nat (- (e + int k)))"
proof -
  have "round53 n 0 = Some (n, 0)" using assms(1,2) by (intro round53_exact) simp_all
  then have "float_of_int n = Inr (n, 0)" by (simp add: float_of_int_def)
  moreover have "round53 (n * M) e = Some (round_half_even (n * M) k, e + int k)"
    using assms(3-5) by (intro round53_shift) simp_all
  ultimately show "int_times_float n (M, e) = Inr (Some (round_half_even (n * M) k, e + int k))"
    by (simp add: int_times_float_def)
  have "(0::int) \<le> 2 ^ (52 + k)" by simp
  then have m0: "0 \<le> n * M" using assms(3) by linarith
  have "0 \<le> round_half_even (n * M) k" using round_half_even_bounds(1) [OF m0 assms(4)] .
  then show "int_of_float (Some (round_half_even (n * M) k, e + int k)) =
           Inr (round_half_even (n * M) k div 2 ^ nat (- (e + int k)))"
    using assms(5) by (cases "round_half_even (n * M) k = 0") (simp_all add: int_of_float_def)
qed

lemma round_half_even_near:
  "2 * m - 2 ^ k \<le> 2 * (round_half_even m k * 2 ^ k)
     \<and> 2 * (round_half_even m k * 2 ^ k) \<le> 2 * m + 2 ^ k"
proof -
  define d :: int where "d = 2 ^ k"
  define q where "q = m div d"
  define r where "r = m mod d"
  have d: "0 < d" by (simp add: d_def)
  have m: "m = q * d + r" by (simp add: q_def r_def)
  have r: "0 \<le> r" "r < d" using d by (simp_all add: r_def)
  have rhe: "round_half_even m k =
      (if 2 * r < d then q else if 2 * r > d then q + 1 else if even q then q else q + 1)"
    by (simp add: round_half_even_def Let_def d_def q_def r_def)
  have "(round_half_even m k = q \<and> 2 * r \<le> d) \<or> (round_half_even m k = q + 1 \<and> d \<le> 2 * r)"
    unfolding rhe by auto
  then show ?thesis
  proof
    assume a: "round_half_even m k = q \<and> 2 * r \<le> d"
    then have "round_half_even m k * d = m - r" using m by simp
    then show ?thesis using a r unfolding d_def by linarith
  next
    assume a: "round_half_even m k = q + 1 \<and> d \<le> 2 * r"
    then have "round_half_even m k * d = m - r + d" using m by (simp add: algebra_simps)
    then show ?thesis using a r unfolding d_def by linarith
  qed
qed

lemma int_of_product_floor:
  fixes n M P D \<delta> :: int and k E :: nat
  assumes bin: "2 ^ (52 + k) \<le> n * M" "n * M < 2 ^ (53 + k)"
    and n: "0 \<le> n" "n < 2 ^ 53"
    and lit: "D * M = P * 2 ^ E - \<delta>" "0 \<le> \<delta>" "0 < D"
    and kE: "k < E"
    and lo: "2 * (n * \<delta>) < 2 * ((n * P mod D) * 2 ^ E) + D * 2 ^ k"
    and hi: "D * 2 ^ k < 2 * 2 ^ E"
  shows "\<exists>x. int_times_float n (M, - int E) = Inr x \<and> int_of_float x = Inr (n * P div D)"
proof -
  define T :: int where "T = 2 ^ E"
  define K :: int where "K = 2 ^ k"
  define G :: int where "G = 2 ^ (E - k)"
  define m' where "m' = round_half_even (n * M) k"
  define t where "t = n * P div D"
  define \<rho> where "\<rho> = n * P mod D"
  have K: "0 < K" and G: "0 < G" and T: "0 < T" by (simp_all add: K_def G_def T_def)
  have KG: "G * K = T" using kE by (simp add: K_def G_def T_def flip: power_add)
  have nP: "n * P = D * t + \<rho>" by (simp add: t_def \<rho>_def)
  have \<rho>: "0 \<le> \<rho>" "\<rho> + 1 \<le> D" using lit(3) by (simp_all add: \<rho>_def add1_zle_eq)
  have near: "2 * (n * M) - K \<le> 2 * (m' * K)" "2 * (m' * K) \<le> 2 * (n * M) + K"
    using round_half_even_near [of "n * M" k] by (simp_all add: m'_def K_def)
  have "D * (n * M) = n * (D * M)" by simp
  also have "\<dots> = n * (P * T - \<delta>)" using lit(1) by (simp add: T_def)
  also have "\<dots> = (n * P) * T - n * \<delta>" by (simp add: algebra_simps)
  finally have "D * (n * M) = (n * P) * T - n * \<delta>" .
  moreover have "(n * P) * T = D * (t * T) + \<rho> * T" unfolding nP by (simp add: algebra_simps)
  ultimately have DX: "D * (n * M) = D * (t * T) + \<rho> * T - n * \<delta>" by simp
  have n\<delta>: "0 \<le> n * \<delta>" using n(1) lit(2) by simp
  have lo': "2 * (n * \<delta>) < 2 * (\<rho> * T) + D * K" using lo by (simp add: \<rho>_def T_def K_def)
  have hi': "D * K < 2 * T" using hi by (simp add: T_def K_def)
  have lower: "t * G \<le> m'"
  proof (rule ccontr)
    assume "\<not> t * G \<le> m'"
    then have "m' + 1 \<le> t * G" by simp
    then have "(m' + 1) * K \<le> (t * G) * K" using K by (simp only: mult_le_cancel_right_pos)
    moreover have "(t * G) * K = t * T" unfolding KG [symmetric] by (simp only: mult.assoc)
    moreover have "(m' + 1) * K = m' * K + K" by (simp add: algebra_simps)
    ultimately have "m' * K + K \<le> t * T" by simp
    with near(1) have "2 * (n * M) + K \<le> 2 * (t * T)" by linarith
    then have "D * (2 * (n * M) + K) \<le> D * (2 * (t * T))" using lit(3) by (simp only: mult_le_cancel_left_pos)
    then have "2 * (D * (n * M)) + D * K \<le> 2 * (D * (t * T))" by (simp add: algebra_simps)
    with DX lo' show False by linarith
  qed
  have upper: "m' < (t + 1) * G"
  proof (rule ccontr)
    assume "\<not> m' < (t + 1) * G"
    then have "(t + 1) * G \<le> m'" by simp
    then have "((t + 1) * G) * K \<le> m' * K" using K by (simp only: mult_le_cancel_right_pos)
    moreover have "((t + 1) * G) * K = (t + 1) * T" unfolding KG [symmetric] by (simp only: mult.assoc)
    moreover have "(t + 1) * T = t * T + T" by (simp add: algebra_simps)
    ultimately have "t * T + T \<le> m' * K" by simp
    with near(2) have "2 * (t * T) + 2 * T \<le> 2 * (n * M) + K" by linarith
    then have "D * (2 * (t * T) + 2 * T) \<le> D * (2 * (n * M) + K)" using lit(3) by (simp only: mult_le_cancel_left_pos)
    then have a: "2 * (D * (t * T)) + 2 * (D * T) \<le> 2 * (D * (n * M)) + D * K" by (simp add: algebra_simps)
    have "(\<rho> + 1) * T \<le> D * T" using \<rho>(2) T by (simp only: mult_le_cancel_right_pos)
    then have "\<rho> * T + T \<le> D * T" by (simp add: algebra_simps)
    with a DX n\<delta> hi' show False by linarith
  qed
  have "m' = G * t + (m' - t * G)" by simp
  moreover have "0 \<le> m' - t * G" using lower by simp
  moreover have "m' - t * G < G" using upper by (simp add: algebra_simps)
  ultimately have "m' div G = t" by (rule int_div_pos_eq)
  moreover have "nat (- (- int E + int k)) = E - k" using kE by simp
  ultimately have "int_of_float (Some (m', - int E + int k)) = Inr (n * P div D)"
    using int_of_product(2) [OF n bin, of "- int E"] kE by (simp add: m'_def G_def t_def)
  moreover have "int_times_float n (M, - int E) = Inr (Some (m', - int E + int k))"
    using int_of_product(1) [OF n bin, of "- int E"] kE by (simp add: m'_def)
  ultimately show ?thesis by blast
qed

lemma brightness_byte_binade:
  assumes "lo \<le> b" and "b \<le> hi" and "0 \<le> lo" and "hi \<le> 255" and "k \<le> 8"
    and "2 ^ (52 + k) \<le> lo * 8646911284551352" and "hi * 8646911284551352 < 2 ^ (53 + k)"
    and "64 * hi < 100 * 2 ^ k"
  shows "brightness_byte b = Inr (min (b * 6 div 100) 15)"
proof -
  have p: "(2::int) ^ k \<le> 2 ^ 8" using assms(5) by (intro power_increasing) simp_all
  have "0 \<le> b * 6 mod 100" by simp
  then have "0 \<le> (b * 6 mod 100) * 2 ^ 57" by simp
  then have lo: "2 * (b * 32) < 2 * ((b * 6 mod 100) * 2 ^ 57) + 100 * 2 ^ k"
    using assms(2,8) by linarith
  have "\<exists>x. int_times_float b (8646911284551352, - int 57) = Inr x
          \<and> int_of_float x = Inr (b * 6 div 100)"
  proof (rule int_of_product_floor [where k = k and \<delta> = 32])
    show "2 ^ (52 + k) \<le> b * 8646911284551352" using assms(1,6) by linarith
    show "b * 8646911284551352 < 2 ^ (53 + k)" using assms(2,7) by linarith
    show "0 \<le> b" using assms(1,3) by simp
    show "b < 2 ^ 53" using assms(2,4) by simp
    show "100 * 8646911284551352 = 6 * 2 ^ 57 - (32::int)" by simp
    show "k < 57" using assms(5) by simp
    show "2 * (b * 32) < 2 * ((b * 6 mod 100) * 2 ^ 57) + 100 * 2 ^ k" by (rule lo)
    show "(100::int) * 2 ^ k < 2 * 2 ^ 57" using p by simp
  qed simp_all
  then show ?thesis by (auto simp: brightness_byte_def float_0_06_def)
qed

lemma brightness_byte_0: "brightness_byte 0 = Inr 0"
  by (simp add: brightness_byte_def float_0_06_def int_times_float_def float_of_int_def
      round53_def bit_length.simps int_of_float_def)

lemma brightness_byte_eq:
  assumes "0 \<le> b" and "b \<le> 255"
  shows "brightness_byte b = Inr (min (b * 6 div 100) 15)"
proof -
  consider "b = 0" | "1 \<le> b \<and> b \<le> 1" | "2 \<le> b \<and> b \<le> 2" | "3 \<le> b \<and> b \<le> 4"
    | "5 \<le> b \<and> b \<le> 8" | "9 \<le> b \<and> b \<le> 16" | "17 \<le> b \<and> b \<le> 33"
    | "34 \<le> b \<and> b \<le> 66" | "67 \<le> b \<and> b \<le> 133" | "134 \<le> b \<and> b \<le> 255"
    using assms by linarith
  then show ?thesis
  proof cases
    case 1
    then show ?thesis by (simp add: brightness_byte_0)
  next
    case 2
    then show ?thesis by (intro brightness_byte_binade [where lo = 1 and hi = 1 and k = 0]) simp_all
  next
    case 3
    then show ?thesis by (intro brightness_byte_binade [where lo = 2 and hi = 2 and k = 1]) simp_all
  next
    case 4
    then show ?thesis by (intro brightness_byte_binade [where lo = 3 and hi = 4 and k = 2]) simp_all
  next
    case 5
    then show ?thesis by (intro brightness_byte_binade [where lo = 5 and hi = 8 and k = 3]) simp_all
  next
    case 6
    then show ?thesis by (intro brightness_byte_binade [where lo = 9 and hi = 16 and k = 4]) simp_all
  next
    case 7
    then show ?thesis by (intro brightness_byte_binade [where lo = 17 and hi = 33 and k = 5]) simp_all
  next
    case 8
    then show ?thesis by (intro brightness_byte_binade [where lo = 34 and hi = 66 and k = 6]) simp_all
  next
    case 9
    then show ?thesis by (intro brightness_byte_binade [where lo = 67 and hi = 133 and k = 7]) simp_all
  next
    case 10
    then show ?thesis by (intro brightness_byte_binade [where lo = 134 and hi = 255 and k = 8]) simp_all
  qed
qed

lemma speed_residue:
  assumes "s mod 20 \<noteq> 0"
  shows "1 \<le> s * 255 mod (100::int)"
proof -
  have "\<not> 100 dvd s * 255"
  proof
    assume "100 dvd s * 255"
    then have "5 * 20 dvd 5 * (s * 51)" by (simp add: mult.commute)
    then have "20 dvd s * 51" by (simp only: dvd_mult_cancel_left) simp
    then have "20 dvd 11 * (s * 51)" by (rule dvd_mult)
    moreover have "11 * (s * 51) = 20 * (28 * s) + s" by simp
    ultimately have "20 dvd 20 * (28 * s) + s" by simp
    then have "20 dvd s" by (simp only: dvd_add_right_iff dvd_triv_left)
    with assms show False by (simp add: dvd_eq_mod_eq_0)
  qed
  then have "s * 255 mod 100 \<noteq> 0" by (simp add: dvd_eq_mod_eq_0)
  moreover have "0 \<le> s * 255 mod 100" by simp
  ultimately show ?thesis by linarith
qed

lemma multiples_of_20:
  assumes "0 \<le> s" and "s \<le> 100" and "s mod 20 = (0::int)"
  shows "s = 0 \<or> s = 20 \<or> s = 40 \<or> s = 60 \<or> s = 80 \<or> s = 100"
proof -
  from assms(3) obtain j where j: "s = 20 * j" by (auto simp: mod_eq_0_iff_dvd)
  then have "0 \<le> j" "j \<le> 5" using assms(1,2) by simp_all
  then have "j = 0 \<or> j = 1 \<or> j = 2 \<or> j = 3 \<or> j = 4 \<or> j = 5" by linarith
  then show ?thesis using j by auto
qed

lemma speed_byte_binade:
  assumes "lo \<le> s" and "s \<le> hi" and "0 \<le> lo" and "hi \<le> 100" and "k \<le> 6"
    and "2 ^ (52 + k) \<le> lo * 5742089524897382" and "hi * 5742089524897382 < 2 ^ (53 + k)"
    and "s mod 20 \<noteq> 0 \<or> 80 * s < 100 * 2 ^ k"
  shows "speed_byte s = Inr (s * 255 div 100)"
proof -
  have p: "(2::int) ^ k \<le> 2 ^ 6" using assms(5) by (intro power_increasing) simp_all
  have s: "0 \<le> s" "s \<le> 100" using assms(1-4) by simp_all
  define A :: int where "A = (s * 255 mod 100) * 2 ^ 51"
  define B :: int where "B = 100 * 2 ^ k"
  define C :: int where "C = 2 ^ 51"
  have B: "0 < B" by (simp add: B_def)
  have "2 * (s * 40) < 2 * A + B"
  proof (cases "s mod 20 = 0")
    case True
    then have "80 * s < B" using assms(8) by (simp add: B_def)
    moreover have "0 \<le> A" by (simp add: A_def)
    ultimately show ?thesis by linarith
  next
    case False
    then have "1 \<le> s * 255 mod 100" by (rule speed_residue)
    then have "C \<le> A" by (simp add: A_def C_def)
    moreover have "80 * s < C" using s by (simp add: C_def)
    ultimately show ?thesis using B s by linarith
  qed
  then have lo: "2 * (s * 40) < 2 * ((s * 255 mod 100) * 2 ^ 51) + 100 * 2 ^ k"
    by (simp only: A_def B_def)
  have "\<exists>x. int_times_float s (5742089524897382, - int 51) = Inr x
          \<and> int_of_float x = Inr (s * 255 div 100)"
  proof (rule int_of_product_floor [where k = k and \<delta> = 40])
    show "2 ^ (52 + k) \<le> s * 5742089524897382" using assms(1,6) by linarith
    show "s * 5742089524897382 < 2 ^ (53 + k)" using assms(2,7) by linarith
    show "0 \<le> s" using s by simp
    show "s < 2 ^ 53" using s by simp
    show "100 * 5742089524897382 = 255 * 2 ^ 51 - (40::int)" by simp
    show "k < 51" using assms(5) by simp
    show "2 * (s * 40) < 2 * ((s * 255 mod 100) * 2 ^ 51) + 100 * 2 ^ k" by (rule lo)
    show "(100::int) * 2 ^ k < 2 * 2 ^ 51" using p by simp
  qed simp_all
  moreover have "0 \<le> s * 255 div 100" using s by (simp add: pos_imp_zdiv_nonneg_iff)
  moreover have "s * 255 div 100 \<le> 255" using s by simp
  ultimately show ?thesis by (auto simp: speed_byte_def float_2_55_def)
qed

lemmas float_eval = int_times_float_def float_of_int_def round53_def bit_length.simps
  round_half_even_def int_of_float_def Let_def

lemma speed_byte_special:
  "speed_byte 0 = Inr 0" "speed_byte 20 = Inr 51" "speed_byte 40 = Inr 102"
  "speed_byte 80 = Inr 204" "speed_byte 100 = Inr 254"
  by (simp_all add: speed_byte_def float_2_55_def float_eval)

lemma speed_byte_eq:
  assumes "0 \<le> s" and "s \<le> 100"
  shows "speed_byte s = Inr (if s = 100 then 254 else s * 255 div 100)"
proof -
  consider "s = 0 \<or> s = 20 \<or> s = 40 \<or> s = 80 \<or> s = 100"
    | "1 \<le> s \<and> s \<le> 1" | "2 \<le> s \<and> s \<le> 3" | "4 \<le> s \<and> s \<le> 6" | "7 \<le> s \<and> s \<le> 12"
    | "13 \<le> s \<and> s \<le> 25 \<and> s \<noteq> 20" | "26 \<le> s \<and> s \<le> 50 \<and> s \<noteq> 40"
    | "51 \<le> s \<and> s \<le> 99 \<and> s \<noteq> 80"
    using assms by linarith
  then show ?thesis
  proof cases
    case 1
    then show ?thesis by (auto simp: speed_byte_special)
  next
    case 2
    then have "speed_byte s = Inr (s * 255 div 100)"
      by (intro speed_byte_binade [where lo = 1 and hi = 1 and k = 0]) auto
    with 2 show ?thesis by simp
  next
    case 3
    then have "speed_byte s = Inr (s * 255 div 100)"
      by (intro speed_byte_binade [where lo = 2 and hi = 3 and k = 1]) auto
    with 3 show ?thesis by simp
  next
    case 4
    then have "speed_byte s = Inr (s * 255 div 100)"
      by (intro speed_byte_binade [where lo = 4 and hi = 6 and k = 2]) auto
    with 4 show ?thesis by simp
  next
    case 5
    then have "speed_byte s = Inr (s * 255 div 100)"
      by (intro speed_byte_binade [where lo = 7 and hi = 12 and k = 3]) auto
    with 5 show ?thesis by simp
  next
    case 6
    then have "s mod 20 \<noteq> 0" using multiples_of_20 [of s] by auto
    with 6 have "speed_byte s = Inr (s * 255 div 100)"
      by (intro speed_byte_binade [where lo = 13 and hi = 25 and k = 4]) simp_all
    with 6 show ?thesis by simp
  next
    case 7
    then have "s mod 20 \<noteq> 0" using multiples_of_20 [of s] by auto
    with 7 have "speed_byte s = Inr (s * 255 div 100)"
      by (intro speed_byte_binade [where lo = 26 and hi = 50 and k = 5]) simp_all
    with 7 show ?thesis by simp
  next
    case 8
    then have "s mod 20 \<noteq> 0 \<or> s = 60" using multiples_of_20 [of s] by auto
    with 8 have "speed_byte s = Inr (s * 255 div 100)"
      by (intro speed_byte_binade [where lo = 51 and hi = 100 and k = 6]) auto
    with 8 show ?thesis by simp
  qed
qed

section \<open>What the connection lifecycle and the commands leave alone\<close>

lemma untouched_refl: "untouched \<sigma> \<sigma>"
  by (simp add: untouched_def)

lemma untouched_trans: "untouched a b \<Longrightarrow> untouched b c \<Longrightarrow> untouched a c"
  by (simp add: untouched_def)

lemma reset_disconnect_timer_untouched: "untouched \<sigma> (reset_disconnect_timer \<sigma>)"
  by (cases \<sigma>) (simp add: untouched_def reset_disconnect_timer_def reported_def Let_def split: option.splits)

lemma client_connected_untouched: "untouched \<sigma> (snd (client_connected E \<sigma>))"
  by (cases \<sigma>) (simp add: untouched_def client_connected_def reported_def split: option.splits)

lemma resolve_characteristics_reported: "reported (snd (resolve_characteristics svc s)) = reported s"
  by (simp add: resolve_characteristics_def reported_def Let_def)

lemma store_client_untouched: "untouched \<sigma> (store_client c \<sigma>)"
proof (cases \<sigma>)
  case (Pair s w)
  have "untouched (s, w) (s\<lparr>client := Some c, cached_services := Some (services c)\<rparr>, w)"
    by (simp add: untouched_def reported_def)
  then show ?thesis
    unfolding Pair store_client_def
    using reset_disconnect_timer_untouched untouched_trans by fastforce
qed

lemma connect_untouched: "untouched \<sigma> (snd (connect E \<sigma>))"
  by (cases \<sigma>)
     (auto simp: connect_def untouched_def store_client_def reset_disconnect_timer_def
        resolve_characteristics_def reported_def Let_def split: sum.splits option.splits)

lemma ensure_connected_untouched: "untouched \<sigma> (snd (ensure_connected E \<sigma>))"
proof -
  obtain up \<sigma>1 where c1: "client_connected E \<sigma> = (up, \<sigma>1)" by (cases "client_connected E \<sigma>")
  obtain up1 \<sigma>2 where c2: "client_connected E \<sigma>1 = (up1, \<sigma>2)" by (cases "client_connected E \<sigma>1")
  have u1: "untouched \<sigma> \<sigma>1" using client_connected_untouched [of \<sigma> E] c1 by simp
  have u2: "untouched \<sigma>1 \<sigma>2" using client_connected_untouched [of \<sigma>1 E] c2 by simp
  show ?thesis
    using u1 u2 reset_disconnect_timer_untouched [of \<sigma>1] reset_disconnect_timer_untouched [of \<sigma>2]
      connect_untouched [of \<sigma>2 E]
    by (auto simp: ensure_connected_def c1 c2 intro: untouched_trans)
qed

lemma write_data_frame:
  assumes "write_data E d \<sigma> = (r, \<sigma>')"
  shows "reported (fst \<sigma>') = reported (fst \<sigma>)"
    and "attempts (snd \<sigma>') = attempts (snd \<sigma>)"
    and "sleeps (snd \<sigma>') = sleeps (snd \<sigma>)"
    and "written (snd \<sigma>') =
           (case r of Inl err \<Rightarrow> written (snd \<sigma>) | Inr u \<Rightarrow> written (snd \<sigma>) @ [(write_uuid (fst \<sigma>'), d)])"
  using assms ensure_connected_untouched [of \<sigma> E]
  by (auto simp: write_data_def untouched_def Let_def split: prod.splits sum.splits option.splits)

lemma count_attempt_frame:
  "reported (fst (count_attempt \<sigma>)) = reported (fst \<sigma>)"
  "written (snd (count_attempt \<sigma>)) = written (snd \<sigma>)"
  "sleeps (snd (count_attempt \<sigma>)) = sleeps (snd \<sigma>)"
  "attempts (snd (count_attempt \<sigma>)) = attempts (snd \<sigma>) + 1"
  by (cases \<sigma>; simp add: count_attempt_def)+

lemma sleep_frame:
  "reported (fst (sleep t \<sigma>)) = reported (fst \<sigma>)"
  "written (snd (sleep t \<sigma>)) = written (snd \<sigma>)"
  "sleeps (snd (sleep t \<sigma>)) = sleeps (snd \<sigma>) @ [t]"
  "attempts (snd (sleep t \<sigma>)) = attempts (snd \<sigma>)"
  by (cases \<sigma>; simp add: sleep_def)+

lemma turn_on_func_frame:
  assumes "turn_on_func E \<sigma> = (r, \<sigma>')"
  shows "attempts (snd \<sigma>') = attempts (snd \<sigma>)" and "sleeps (snd \<sigma>') = sleeps (snd \<sigma>)"
  using assms write_data_frame(2,3) [of E turn_on_cmd \<sigma>]
  by (auto simp: turn_on_func_def split: prod.splits sum.splits)

lemma turn_off_func_frame:
  assumes "turn_off_func E \<sigma> = (r, \<sigma>')"
  shows "attempts (snd \<sigma>') = attempts (snd \<sigma>)" and "sleeps (snd \<sigma>') = sleeps (snd \<sigma>)"
  using assms write_data_frame(2,3) [of E turn_off_cmd \<sigma>]
  by (auto simp: turn_off_func_def split: prod.splits sum.splits)

lemma set_rgb_color_func_frame:
  assumes "set_rgb_color_func E rgb \<sigma> = (r, \<sigma>')"
  shows "attempts (snd \<sigma>') = attempts (snd \<sigma>)" and "sleeps (snd \<sigma>') = sleeps (snd \<sigma>)"
    and "written (snd \<sigma>') =
           (case r of
              Inl err \<Rightarrow> written (snd \<sigma>)
            | Inr u \<Rightarrow> written (snd \<sigma>)
                @ [(write_uuid (fst \<sigma>'), [0x55, 0x07, 0x01, fst rgb, fst (snd rgb), snd (snd rgb)])])"
    and "r = Inr u \<Longrightarrow> rgb_color (fst \<sigma>') = rgb \<and> effect (fst \<sigma>') = EFFECT_OFF"
proof -
  obtain s w where \<sigma>: "\<sigma> = (s, w)" by (cases \<sigma>)
  let ?p = "[0x55, 0x07, 0x01, fst rgb, fst (snd rgb), snd (snd rgb)]"
  note fr = write_data_frame [of E ?p "(s\<lparr>rgb_color := rgb\<rparr>, w)"]
  have rep: "\<And>a b. reported a = reported b \<Longrightarrow> rgb_color a = rgb_color b"
    by (simp add: reported_def)
  show "attempts (snd \<sigma>') = attempts (snd \<sigma>)"
    using assms fr(2) unfolding \<sigma>
    by (auto simp: set_rgb_color_func_def bytearray_def Let_def split: prod.splits sum.splits if_splits)
  show "sleeps (snd \<sigma>') = sleeps (snd \<sigma>)"
    using assms fr(3) unfolding \<sigma>
    by (auto simp: set_rgb_color_func_def bytearray_def Let_def split: prod.splits sum.splits if_splits)
  show "written (snd \<sigma>') =
           (case r of
              Inl err \<Rightarrow> written (snd \<sigma>)
            | Inr u \<Rightarrow> written (snd \<sigma>) @ [(write_uuid (fst \<sigma>'), ?p)])"
    using assms fr(4) unfolding \<sigma>
    by (auto simp: set_rgb_color_func_def bytearray_def Let_def split: prod.splits sum.splits if_splits)
  show "r = Inr u \<Longrightarrow> rgb_color (fst \<sigma>') = rgb \<and> effect (fst \<sigma>') = EFFECT_OFF"
    using assms fr(1) unfolding \<sigma>
    by (auto simp: set_rgb_color_func_def bytearray_def Let_def reported_def
        split: prod.splits sum.splits if_splits)
qed

lemma set_brightness_func_frame:
  assumes "set_brightness_func E b0 \<sigma> = (r, \<sigma>')"
  shows "attempts (snd \<sigma>') = attempts (snd \<sigma>)" and "sleeps (snd \<sigma>') = sleeps (snd \<sigma>)"
    and "brightness_byte b0 = Inr b \<Longrightarrow> written (snd \<sigma>') =
           (case r of
              Inl err \<Rightarrow> written (snd \<sigma>)
            | Inr u \<Rightarrow> written (snd \<sigma>) @ [(write_uuid (fst \<sigma>'), [0x55, 0x03, 0x01, 0xff, b])])"
proof -
  obtain s w where \<sigma>: "\<sigma> = (s, w)" by (cases \<sigma>)
  note fr = write_data_frame [of E _ "(s\<lparr>brightness := b0\<rparr>, w)"]
  show "attempts (snd \<sigma>') = attempts (snd \<sigma>)"
    using assms fr(2) unfolding \<sigma>
    by (auto simp: set_brightness_func_def bytearray_def Let_def split: prod.splits sum.splits if_splits)
  show "sleeps (snd \<sigma>') = sleeps (snd \<sigma>)"
    using assms fr(3) unfolding \<sigma>
    by (auto simp: set_brightness_func_def bytearray_def Let_def split: prod.splits sum.splits if_splits)
  show "brightness_byte b0 = Inr b \<Longrightarrow> written (snd \<sigma>') =
           (case r of
              Inl err \<Rightarrow> written (snd \<sigma>)
            | Inr u \<Rightarrow> written (snd \<sigma>) @ [(write_uuid (fst \<sigma>'), [0x55, 0x03, 0x01, 0xff, b])])"
    using assms fr(4) unfolding \<sigma>
    by (auto simp: set_brightness_func_def bytearray_def Let_def split: prod.splits sum.splits if_splits)
qed

lemma set_effect_func_frame:
  assumes "set_effect_func E name \<sigma> = (r, \<sigma>')"
  shows "attempts (snd \<sigma>') = attempts (snd \<sigma>)" and "sleeps (snd \<sigma>') = sleeps (snd \<sigma>)"
  using assms write_data_frame(2,3) [of E _ \<sigma>]
  by (auto simp: set_effect_func_def bytearray_def split: prod.splits sum.splits option.splits if_splits)

lemma set_effect_speed_func_frame:
  assumes "set_effect_speed_func E speed \<sigma> = (r, \<sigma>')"
  shows "attempts (snd \<sigma>') = attempts (snd \<sigma>)" and "sleeps (snd \<sigma>') = sleeps (snd \<sigma>)"
    and "reported (fst \<sigma>') = reported (fst \<sigma>)"
    and "speed_byte speed = Inr b \<Longrightarrow> written (snd \<sigma>') =
           (case r of
              Inl err \<Rightarrow> written (snd \<sigma>)
            | Inr u \<Rightarrow> written (snd \<sigma>) @ [(write_uuid (fst \<sigma>'), [0x55, 0x04, 0x04, b])])"
proof -
  note fr = write_data_frame [of E _ \<sigma>]
  show "attempts (snd \<sigma>') = attempts (snd \<sigma>)"
    using assms fr(2)
    by (auto simp: set_effect_speed_func_def bytearray_def split: prod.splits sum.splits if_splits)
  show "sleeps (snd \<sigma>') = sleeps (snd \<sigma>)"
    using assms fr(3)
    by (auto simp: set_effect_speed_func_def bytearray_def split: prod.splits sum.splits if_splits)
  show "reported (fst \<sigma>') = reported (fst \<sigma>)"
    using assms fr(1)
    by (auto simp: set_effect_speed_func_def bytearray_def split: prod.splits sum.splits if_splits)
  show "speed_byte speed = Inr b \<Longrightarrow> written (snd \<sigma>') =
           (case r of
              Inl err \<Rightarrow> written (snd \<sigma>)
            | Inr u \<Rightarrow> written (snd \<sigma>) @ [(write_uuid (fst \<sigma>'), [0x55, 0x04, 0x04, b])])"
    using assms fr(4)
    by (auto simp: set_effect_speed_func_def bytearray_def split: prod.splits sum.splits if_splits)
qed

lemma command_func_frame:
  assumes "command_func E c \<sigma> = (r, \<sigma>')"
  shows "attempts (snd \<sigma>') = attempts (snd \<sigma>)" and "sleeps (snd \<sigma>') = sleeps (snd \<sigma>)"
  using assms turn_on_func_frame turn_off_func_frame set_rgb_color_func_frame(1,2)
    set_brightness_func_frame(1,2) set_effect_func_frame set_effect_speed_func_frame(1,2)
  by (cases c; simp; blast)+

lemma run_eq: "run E c = retry_bluetooth_connection_error E (command_func E c)"
  by (cases c)
     (simp_all add: turn_on_def turn_off_def set_rgb_color_def set_brightness_def
        set_effect_def set_effect_speed_def)

lemma attempts_list: "[0..<DEFAULT_ATTEMPTS] = [0, 1, 2]"
  by (simp add: DEFAULT_ATTEMPTS_def upt_rec)

section \<open>The retry loop\<close>

lemma retry_loop_keeps:
  assumes "P \<sigma>0"
    and "\<And>\<sigma>. P \<sigma> \<Longrightarrow> P (count_attempt \<sigma>)"
    and "\<And>\<sigma>. P \<sigma> \<Longrightarrow> P (sleep BLEAK_BACKOFF_TIME \<sigma>)"
    and "\<And>\<sigma> r \<sigma>'. P \<sigma> \<Longrightarrow> func \<sigma> = (r, \<sigma>') \<Longrightarrow> P \<sigma>'"
  shows "P (snd (retry_loop E func xs \<sigma>0))"
  using assms(1)
proof (induction xs arbitrary: \<sigma>0)
  case Nil
  then show ?case by simp
next
  case (Cons a xs)
  obtain r \<sigma>1 where f: "func (count_attempt \<sigma>0) = (r, \<sigma>1)" by (cases "func (count_attempt \<sigma>0)")
  have p1: "P \<sigma>1" using assms(2) [OF Cons.prems] assms(4) f by blast
  have p2: "P (snd (retry_loop E func xs (sleep BLEAK_BACKOFF_TIME \<sigma>1)))"
    using Cons.IH [OF assms(3) [OF p1]] .
  show ?case using f p1 p2 by (cases r) simp_all
qed

lemma retry_loop_success:
  assumes "retry_loop E func xs \<sigma>0 = (Inr u, \<sigma>')"
    and "xs \<noteq> []" and "last xs = DEFAULT_ATTEMPTS - 1"
    and "P \<sigma>0"
    and "\<And>\<sigma>. P \<sigma> \<Longrightarrow> P (count_attempt \<sigma>)"
    and "\<And>\<sigma>. P \<sigma> \<Longrightarrow> P (sleep BLEAK_BACKOFF_TIME \<sigma>)"
    and "\<And>\<sigma> err \<sigma>'. P \<sigma> \<Longrightarrow> func \<sigma> = (Inl err, \<sigma>') \<Longrightarrow> P \<sigma>'"
  shows "\<exists>\<sigma>. P \<sigma> \<and> func \<sigma> = (Inr u, \<sigma>')"
  using assms(1-4)
proof (induction xs arbitrary: \<sigma>0)
  case Nil
  then show ?case by simp
next
  case (Cons a xs)
  obtain r \<sigma>1 where f: "func (count_attempt \<sigma>0) = (r, \<sigma>1)" by (cases "func (count_attempt \<sigma>0)")
  have p0: "P (count_attempt \<sigma>0)" using assms(5) Cons.prems(4) by blast
  show ?case
  proof (cases r)
    case (Inr v)
    then have "func (count_attempt \<sigma>0) = (Inr u, \<sigma>')" using f Cons.prems(1) by simp
    then show ?thesis using p0 by blast
  next
    case (Inl err)
    have p1: "P (sleep BLEAK_BACKOFF_TIME \<sigma>1)" using assms(6,7) p0 f Inl by blast
    have again: "retry_loop E func xs (sleep BLEAK_BACKOFF_TIME \<sigma>1) = (Inr u, \<sigma>')"
      using Cons.prems(1) f Inl by (auto split: if_splits)
    show ?thesis
    proof (cases "xs = []")
      case True
      then have "a = DEFAULT_ATTEMPTS - 1" using Cons.prems(3) by simp
      then show ?thesis using Cons.prems(1) f Inl by (auto split: if_splits)
    next
      case False
      then have "last xs = DEFAULT_ATTEMPTS - 1" using Cons.prems(3) by simp
      then show ?thesis using Cons.IH [OF again False _ p1] by blast
    qed
  qed
qed

lemma retry_success:
  assumes "retry_bluetooth_connection_error E func \<sigma>0 = (Inr u, \<sigma>')"
    and "P \<sigma>0"
    and "\<And>\<sigma>. P \<sigma> \<Longrightarrow> P (count_attempt \<sigma>)"
    and "\<And>\<sigma>. P \<sigma> \<Longrightarrow> P (sleep BLEAK_BACKOFF_TIME \<sigma>)"
    and "\<And>\<sigma> err \<sigma>'. P \<sigma> \<Longrightarrow> func \<sigma> = (Inl err, \<sigma>') \<Longrightarrow> P \<sigma>'"
  shows "\<exists>\<sigma>. P \<sigma> \<and> func \<sigma> = (Inr u, \<sigma>')"
proof (rule retry_loop_success [where xs = "[0, 1, 2]" and E = E])
  show "retry_loop E func [0, 1, 2] \<sigma>0 = (Inr u, \<sigma>')"
    using assms(1) by (simp only: retry_bluetooth_connection_error_def attempts_list)
  show "last [0, 1, 2] = DEFAULT_ATTEMPTS - 1" by (simp add: DEFAULT_ATTEMPTS_def)
qed (use assms in auto)

lemma run_three_attempts: "run E c \<sigma> = retry_loop E (command_func E c) [0, 1, 2] \<sigma>"
  by (simp only: run_eq retry_bluetooth_connection_error_def attempts_list)


lemmas link_eval =
  steady_env_def failing_write_env_def unknown_device_env_def fresh_def sample_services_def
  new_instance_def new_world_def count_attempt_def sleep_def turn_on_func_def write_data_def
  ensure_connected_def client_connected_def connect_def store_client_def
  reset_disconnect_timer_def resolve_characteristics_def get_characteristic_def
  WRITE_CHARACTERISTIC_UUID_def MANUFACTURER_NAME_UUID_def FIRMWARE_REVISION_UUID_def
  SW_NUMBER_UUID_def turn_on_cmd_def Let_def


text \<open>
  Claim C4. Take any of the six commands. If its first attempt raises an exception that the
  wrapper's second or third handler catches, and so do the second attempt (started after
  the backoff sleep) and the third, then the decorated command raises the third attempt's
  exception and ends in the third attempt's state; the wrapped method has been invoked
  exactly three times and there have been exactly two sleeps, each of 250 ms, none after
  the third failure.
\<close>

theorem transient_errors_retried_to_the_cap:
  assumes "command_func E c (count_attempt \<sigma>0) = (Inl e1, \<sigma>1)"
    and "recognized_transient E e1"
    and "command_func E c (count_attempt (sleep BLEAK_BACKOFF_TIME \<sigma>1)) = (Inl e2, \<sigma>2)"
    and "recognized_transient E e2"
    and "command_func E c (count_attempt (sleep BLEAK_BACKOFF_TIME \<sigma>2)) = (Inl e3, \<sigma>3)"
    and "recognized_transient E e3"
  shows "run E c \<sigma>0 = (Inl e3, \<sigma>3)
      \<and> attempts (snd \<sigma>3) = attempts (snd \<sigma>0) + 3
      \<and> sleeps (snd \<sigma>3) = sleeps (snd \<sigma>0) @ [250 / 1000, 250 / 1000]"
proof -
  have "run E c \<sigma>0 = (Inl e3, \<sigma>3)"
    using assms unfolding run_three_attempts
    by (auto simp: recognized_transient_def DEFAULT_ATTEMPTS_def)
  moreover have "attempts (snd \<sigma>3) = attempts (snd \<sigma>0) + 3"
    using command_func_frame(1) [OF assms(1)] command_func_frame(1) [OF assms(3)]
      command_func_frame(1) [OF assms(5)]
    by (simp add: count_attempt_frame sleep_frame)
  moreover have "sleeps (snd \<sigma>3) = sleeps (snd \<sigma>0) @ [250 / 1000, 250 / 1000]"
    using command_func_frame(2) [OF assms(1)] command_func_frame(2) [OF assms(3)]
      command_func_frame(2) [OF assms(5)]
    by (simp add: count_attempt_frame sleep_frame BLEAK_BACKOFF_TIME_def)
  ultimately show ?thesis by simp
qed

theorem transient_errors_retried_to_the_cap_witness:
  "fst (run failing_write_env TurnOn fresh) = Inl BleakDBusError
   \<and> attempts (snd (snd (run failing_write_env TurnOn fresh))) = 3
   \<and> sleeps (snd (snd (run failing_write_env TurnOn fresh))) = [250 / 1000, 250 / 1000]"
proof -
  define \<sigma>1 where "\<sigma>1 = snd (command_func failing_write_env TurnOn (count_attempt fresh))"
  define \<sigma>2 where
    "\<sigma>2 = snd (command_func failing_write_env TurnOn (count_attempt (sleep BLEAK_BACKOFF_TIME \<sigma>1)))"
  define \<sigma>3 where
    "\<sigma>3 = snd (command_func failing_write_env TurnOn (count_attempt (sleep BLEAK_BACKOFF_TIME \<sigma>2)))"
  have t: "recognized_transient failing_write_env BleakDBusError"
    by (simp add: recognized_transient_def RETRY_BACKOFF_EXCEPTIONS_def)
  have "fst (command_func failing_write_env TurnOn (count_attempt fresh)) = Inl BleakDBusError"
    by (simp add: link_eval)
  then have h1: "command_func failing_write_env TurnOn (count_attempt fresh) = (Inl BleakDBusError, \<sigma>1)"
    by (simp add: \<sigma>1_def prod_eq_iff)
  have "fst (command_func failing_write_env TurnOn (count_attempt (sleep BLEAK_BACKOFF_TIME \<sigma>1)))
          = Inl BleakDBusError"
    by (simp add: \<sigma>1_def link_eval)
  then have h2: "command_func failing_write_env TurnOn (count_attempt (sleep BLEAK_BACKOFF_TIME \<sigma>1))
          = (Inl BleakDBusError, \<sigma>2)"
    by (simp add: \<sigma>2_def prod_eq_iff)
  have "fst (command_func failing_write_env TurnOn (count_attempt (sleep BLEAK_BACKOFF_TIME \<sigma>2)))
          = Inl BleakDBusError"
    by (simp add: \<sigma>2_def \<sigma>1_def link_eval)
  then have h3: "command_func failing_write_env TurnOn (count_attempt (sleep BLEAK_BACKOFF_TIME \<sigma>2))
          = (Inl BleakDBusError, \<sigma>3)"
    by (simp add: \<sigma>3_def prod_eq_iff)
  show ?thesis
    using transient_errors_retried_to_the_cap [OF h1 t h2 t h3 t]
    by (simp add: fresh_def new_world_def)
qed

text \<open>
  Claim C5. Take any of the six commands. If its first attempt raises
  \<open>BleakNotFoundError\<close>, the decorated command raises it at once: the wrapped method has
  been invoked exactly once, nothing has slept, and the state is the one that attempt left.
\<close>

theorem device_not_found_is_not_retried:
  assumes "command_func E c (count_attempt \<sigma>0) = (Inl BleakNotFoundError, \<sigma>1)"
  shows "run E c \<sigma>0 = (Inl BleakNotFoundError, \<sigma>1)
      \<and> attempts (snd \<sigma>1) = attempts (snd \<sigma>0) + 1
      \<and> sleeps (snd \<sigma>1) = sleeps (snd \<sigma>0)"
  using assms command_func_frame [OF assms] unfolding run_three_attempts
  by (simp add: count_attempt_frame)

theorem device_not_found_is_not_retried_witness:
  "command_func unknown_device_env TurnOn (count_attempt fresh) =
     (Inl BleakNotFoundError, new_instance 30, new_world\<lparr>established := 1, attempts := 1\<rparr>)
   \<and> run unknown_device_env TurnOn fresh =
     (Inl BleakNotFoundError, new_instance 30, new_world\<lparr>established := 1, attempts := 1\<rparr>)
   \<and> attempts (new_world\<lparr>established := 1, attempts := 1\<rparr>) = attempts (snd fresh) + 1
   \<and> sleeps (new_world\<lparr>established := 1, attempts := 1\<rparr>) = sleeps (snd fresh)"
proof -
  have h: "command_func unknown_device_env TurnOn (count_attempt fresh) =
     (Inl BleakNotFoundError, new_instance 30, new_world\<lparr>established := 1, attempts := 1\<rparr>)"
    by (simp add: link_eval)
  show ?thesis using h device_not_found_is_not_retried [OF h] by simp
qed

section \<open>What the commands do\<close>

lemma EFFECT_MAP_dom:
  "EFFECT_MAP name = None \<longleftrightarrow>
     name \<notin> {''Effect 0'', ''Effect 1'', ''Effect 2'', ''Effect 3'', ''Effect 4'',
               ''Effect 5'', ''Effect 6'', ''Effect 7'', ''Effect 8'', ''Effect 9''}"
proof -
  have l: "[0..<10] = [0, 1, 2, 3, 4, 5, 6, 7, 8, 9 :: nat]" by (simp add: upt_rec)
  show ?thesis
    unfolding EFFECT_MAP_def map_of_eq_None_iff l by (simp add: str_def)
qed

text \<open>
  Claim C7. For every effect name outside "Effect 0" ... "Effect 9", \<open>set_effect\<close> returns
  without raising and changes nothing: the instance, with every reported field, is the one
  it was given, and so is the world, with no call to the transport and nothing written;
  only the count of the wrapper's invocations has gone up by one.
\<close>

theorem set_effect_rejects_unknown_name:
  assumes "name \<notin> {''Effect 0'', ''Effect 1'', ''Effect 2'', ''Effect 3'', ''Effect 4'',
                     ''Effect 5'', ''Effect 6'', ''Effect 7'', ''Effect 8'', ''Effect 9''}"
  shows "set_effect E name (s, w) = (Inr (), s, w\<lparr>attempts := attempts w + 1\<rparr>)"
proof -
  have "EFFECT_MAP name = None" using assms by (simp add: EFFECT_MAP_dom)
  then show ?thesis
    by (simp add: set_effect_def retry_bluetooth_connection_error_def attempts_list
        set_effect_func_def count_attempt_def)
qed

theorem set_effect_rejects_unknown_name_witness:
  "''Effect 10'' \<notin> {''Effect 0'', ''Effect 1'', ''Effect 2'', ''Effect 3'', ''Effect 4'',
                     ''Effect 5'', ''Effect 6'', ''Effect 7'', ''Effect 8'', ''Effect 9''}
   \<and> set_effect steady_env ''Effect 10'' (new_instance 30, new_world)
       = (Inr (), new_instance 30, new_world\<lparr>attempts := 1\<rparr>)"
proof -
  have h: "''Effect 10'' \<notin> {''Effect 0'', ''Effect 1'', ''Effect 2'', ''Effect 3'', ''Effect 4'',
                     ''Effect 5'', ''Effect 6'', ''Effect 7'', ''Effect 8'', ''Effect 9''}"
    by simp
  show ?thesis
    using h set_effect_rejects_unknown_name [OF h, of steady_env "new_instance 30" new_world]
    by (simp add: new_world_def)
qed

text \<open>
  Claim C8. For every triple \<open>(r, g, b)\<close> and every prior state, when \<open>set_rgb_color\<close> returns
  without raising, the transport has acknowledged exactly one more packet, the six bytes
  55 07 01 r g b sent to the write characteristic, the reported colour is \<open>(r, g, b)\<close> and
  the reported effect is "off", whatever it was before.
\<close>

theorem set_rgb_color_success:
  assumes "set_rgb_color E (r, g, b) (s, w) = (Inr (), s', w')"
  shows "written w' = written w @ [(write_uuid s', [0x55, 0x07, 0x01, r, g, b])]
      \<and> rgb_color s' = (r, g, b) \<and> effect s' = ''off''"
proof -
  have "\<exists>\<sigma>. written (snd \<sigma>) = written w \<and> set_rgb_color_func E (r, g, b) \<sigma> = (Inr (), s', w')"
  proof (rule retry_success [where P = "\<lambda>\<sigma>. written (snd \<sigma>) = written w" and E = E])
    show "retry_bluetooth_connection_error E (set_rgb_color_func E (r, g, b)) (s, w) = (Inr (), s', w')"
      using assms by (simp add: set_rgb_color_def)
    show "\<And>\<sigma> err \<sigma>'. written (snd \<sigma>) = written w \<Longrightarrow>
        set_rgb_color_func E (r, g, b) \<sigma> = (Inl err, \<sigma>') \<Longrightarrow> written (snd \<sigma>') = written w"
      using set_rgb_color_func_frame(3) by fastforce
  qed (simp_all add: count_attempt_frame sleep_frame)
  then obtain \<sigma> where \<sigma>: "written (snd \<sigma>) = written w"
    and f: "set_rgb_color_func E (r, g, b) \<sigma> = (Inr (), s', w')" by blast
  show ?thesis
    using set_rgb_color_func_frame(3) [OF f] set_rgb_color_func_frame(4) [OF f] \<sigma>
    by (simp add: EFFECT_OFF_def)
qed

theorem set_rgb_color_success_witness:
  "fst (set_rgb_color steady_env (10, 20, 30) fresh) = Inr ()
   \<and> written (snd (snd (set_rgb_color steady_env (10, 20, 30) fresh)))
       = [(Some 1, [0x55, 0x07, 0x01, 10, 20, 30])]
   \<and> rgb_color (fst (snd (set_rgb_color steady_env (10, 20, 30) fresh))) = (10, 20, 30)
   \<and> effect (fst (snd (set_rgb_color steady_env (10, 20, 30) fresh))) = ''off''"
proof -
  define s' where "s' = fst (snd (set_rgb_color steady_env (10, 20, 30) fresh))"
  define w' where "w' = snd (snd (set_rgb_color steady_env (10, 20, 30) fresh))"
  have ok: "fst (set_rgb_color steady_env (10, 20, 30) fresh) = Inr ()"
    and wu: "write_uuid s' = Some 1"
    unfolding s'_def
    by (simp_all add: set_rgb_color_def retry_bluetooth_connection_error_def attempts_list
        set_rgb_color_func_def bytearray_def link_eval)
  then have h: "set_rgb_color steady_env (10, 20, 30) (new_instance 30, new_world) = (Inr (), s', w')"
    by (simp add: s'_def w'_def prod_eq_iff fresh_def)
  show ?thesis
    using ok wu set_rgb_color_success [OF h]
    by (simp add: s'_def w'_def new_world_def)
qed

text \<open>
  Claim C10. For every speed, when \<open>set_effect_speed\<close> returns without raising, the five
  reported fields (on/off flag, colour, brightness, effect name, colour mode) are exactly
  what they were before the call.
\<close>

theorem set_effect_speed_keeps_reported_state:
  assumes "set_effect_speed E speed (s, w) = (Inr (), s', w')"
  shows "is_on s' = is_on s \<and> rgb_color s' = rgb_color s \<and> brightness s' = brightness s
      \<and> effect s' = effect s \<and> color_mode s' = color_mode s"
proof -
  have "reported (fst (snd (retry_loop E (set_effect_speed_func E speed) [0..<DEFAULT_ATTEMPTS] (s, w))))
          = reported s"
  proof (rule retry_loop_keeps [where P = "\<lambda>\<sigma>. reported (fst \<sigma>) = reported s"])
    show "\<And>\<sigma> r \<sigma>'. reported (fst \<sigma>) = reported s \<Longrightarrow>
        set_effect_speed_func E speed \<sigma> = (r, \<sigma>') \<Longrightarrow> reported (fst \<sigma>') = reported s"
      using set_effect_speed_func_frame(3) by fastforce
  qed (simp_all add: count_attempt_frame sleep_frame)
  then have "reported s' = reported s"
    using assms by (simp add: set_effect_speed_def retry_bluetooth_connection_error_def)
  then show ?thesis by (simp add: reported_def)
qed

theorem set_effect_speed_keeps_reported_state_witness:
  "fst (set_effect_speed steady_env 30 fresh) = Inr ()
   \<and> reported (fst (snd (set_effect_speed steady_env 30 fresh))) = reported (fst fresh)"
proof -
  define s' where "s' = fst (snd (set_effect_speed steady_env 30 fresh))"
  define w' where "w' = snd (snd (set_effect_speed steady_env 30 fresh))"
  have b: "speed_byte 30 = Inr 76" using speed_byte_eq [of 30] by simp
  have ok: "fst (set_effect_speed steady_env 30 fresh) = Inr ()"
    by (simp add: set_effect_speed_def retry_bluetooth_connection_error_def attempts_list
        set_effect_speed_func_def b bytearray_def link_eval)
  then have h: "set_effect_speed steady_env 30 (new_instance 30, new_world) = (Inr (), s', w')"
    by (simp add: s'_def w'_def prod_eq_iff fresh_def)
  show ?thesis
    using ok set_effect_speed_keeps_reported_state [OF h]
    by (simp add: s'_def reported_def fresh_def)
qed

lemma connected_eq:
  "connected =
     (\<lparr>delay = 30, client = Some \<lparr>services = sample_services\<rparr>,
       cached_services = Some sample_services, expected_disconnect = False,
       disconnect_timer = Some 0, is_on = True, rgb_color = (255, 255, 255), brightness = 255,
       effect = ''off'', color_mode = RGB, write_uuid = Some 1,
       manufacturer_name_char = Some 2, firmware_revision_char = Some 3,
       model_number_char = Some 4\<rparr>,
      \<lparr>established = 1, fetched = 0, polled = 0, write_calls = 1,
       written = [(Some 1, [0x55, 0x01, 0x02, 0x01])], disconnects = 0, timers = 1,
       cancelled = [], sleeps = [], attempts = 1\<rparr>)"
  by (simp add: connected_def turn_on_def retry_bluetooth_connection_error_def attempts_list
      EFFECT_OFF_def link_eval)

text \<open>
  Claim C3, as the code has it. When \<open>_execute_disconnect\<close> completes without raising, the
  transport handle and the write characteristic reference are cleared; the three info
  characteristic references (manufacturer, firmware, model) are not assigned and keep the
  values they had.
\<close>

theorem execute_disconnect_clears_client_and_write_ref:
  assumes "execute_disconnect E (s, w) = (Inr (), s', w')"
  shows "client s' = None \<and> write_uuid s' = None
      \<and> manufacturer_name_char s' = manufacturer_name_char s
      \<and> firmware_revision_char s' = firmware_revision_char s
      \<and> model_number_char s' = model_number_char s"
  using assms
  by (auto simp: execute_disconnect_def client_connected_def Let_def
      split: option.splits if_splits prod.splits)

theorem execute_disconnect_clears_client_and_write_ref_witness:
  "fst (execute_disconnect steady_env connected) = Inr ()
   \<and> client (fst (snd (execute_disconnect steady_env connected))) = None
   \<and> write_uuid (fst (snd (execute_disconnect steady_env connected))) = None
   \<and> manufacturer_name_char (fst (snd (execute_disconnect steady_env connected)))
       = manufacturer_name_char (fst connected)"
proof -
  define s' where "s' = fst (snd (execute_disconnect steady_env connected))"
  define w' where "w' = snd (snd (execute_disconnect steady_env connected))"
  have ok: "fst (execute_disconnect steady_env connected) = Inr ()"
    by (simp add: connected_eq execute_disconnect_def client_connected_def steady_env_def)
  then have h: "execute_disconnect steady_env (fst connected, snd connected) = (Inr (), s', w')"
    by (simp add: s'_def w'_def prod_eq_iff)
  show ?thesis
    using ok execute_disconnect_clears_client_and_write_ref [OF h] by (simp add: s'_def)
qed

text \<open>
  Claim C3 as stated fails. After a disconnect executed on a connected instance, the
  transport handle and the write reference are \<open>None\<close>, and the three info references still
  hold the characteristics resolved at connection time. And when the transport's
  \<open>disconnect\<close> raises, the exception leaves \<open>_execute_disconnect\<close> before anything is
  cleared: the handle and the write reference are still there.
\<close>

theorem execute_disconnect_keeps_info_refs:
  "fst (execute_disconnect steady_env connected) = Inr ()
   \<and> disconnects (snd (snd (execute_disconnect steady_env connected))) = 1
   \<and> client (fst (snd (execute_disconnect steady_env connected))) = None
   \<and> write_uuid (fst (snd (execute_disconnect steady_env connected))) = None
   \<and> manufacturer_name_char (fst (snd (execute_disconnect steady_env connected))) = Some 2
   \<and> firmware_revision_char (fst (snd (execute_disconnect steady_env connected))) = Some 3
   \<and> model_number_char (fst (snd (execute_disconnect steady_env connected))) = Some 4
   \<and> fst (execute_disconnect failing_disconnect_env connected) = Inl BleakError
   \<and> disconnects (snd (snd (execute_disconnect failing_disconnect_env connected))) = 1
   \<and> client (fst (snd (execute_disconnect failing_disconnect_env connected)))
       = Some \<lparr>services = sample_services\<rparr>
   \<and> write_uuid (fst (snd (execute_disconnect failing_disconnect_env connected))) = Some 1"
  by (simp add: connected_eq execute_disconnect_def client_connected_def steady_env_def
      failing_disconnect_env_def)

lemma three_failed_attempts:
  assumes "func (count_attempt \<sigma>0) = (Inl BleakDBusError, \<sigma>1)"
    and "func (count_attempt (sleep BLEAK_BACKOFF_TIME \<sigma>1)) = (Inl BleakDBusError, \<sigma>2)"
    and "func (count_attempt (sleep BLEAK_BACKOFF_TIME \<sigma>2)) = (Inl BleakDBusError, \<sigma>3)"
  shows "retry_bluetooth_connection_error E func \<sigma>0 = (Inl BleakDBusError, \<sigma>3)"
  using assms unfolding retry_bluetooth_connection_error_def attempts_list
  by (simp add: RETRY_BACKOFF_EXCEPTIONS_def DEFAULT_ATTEMPTS_def)

text \<open>
  Claim C1 fails on the code for \<open>set_rgb_color\<close> and \<open>set_brightness\<close>: both assign the
  reported field before the write. On a stack whose every write raises \<open>BleakDBusError\<close>,
  each command raises after its third attempt, nothing has been written, and the reported
  colour and brightness are the requested ones, not the ones from before the call.
\<close>

theorem failed_commands_change_reported_state:
  "fst (set_rgb_color failing_write_env (10, 20, 30) fresh) = Inl BleakDBusError
   \<and> written (snd (snd (set_rgb_color failing_write_env (10, 20, 30) fresh))) = []
   \<and> rgb_color (fst fresh) = (255, 255, 255)
   \<and> rgb_color (fst (snd (set_rgb_color failing_write_env (10, 20, 30) fresh))) = (10, 20, 30)
   \<and> fst (set_brightness failing_write_env 200 fresh) = Inl BleakDBusError
   \<and> written (snd (snd (set_brightness failing_write_env 200 fresh))) = []
   \<and> brightness (fst fresh) = 255
   \<and> brightness (fst (snd (set_brightness failing_write_env 200 fresh))) = 200"
proof -
  let ?c = "set_rgb_color_func failing_write_env (10, 20, 30)"
  define c1 where "c1 = snd (?c (count_attempt fresh))"
  define c2 where "c2 = snd (?c (count_attempt (sleep BLEAK_BACKOFF_TIME c1)))"
  define c3 where "c3 = snd (?c (count_attempt (sleep BLEAK_BACKOFF_TIME c2)))"
  note ev = set_rgb_color_func_def set_brightness_func_def bytearray_def link_eval
  have "fst (?c (count_attempt fresh)) = Inl BleakDBusError" by (simp add: ev)
  then have h1: "?c (count_attempt fresh) = (Inl BleakDBusError, c1)"
    by (simp add: c1_def prod_eq_iff)
  have "fst (?c (count_attempt (sleep BLEAK_BACKOFF_TIME c1))) = Inl BleakDBusError"
    by (simp add: c1_def ev)
  then have h2: "?c (count_attempt (sleep BLEAK_BACKOFF_TIME c1)) = (Inl BleakDBusError, c2)"
    by (simp add: c2_def prod_eq_iff)
  have "fst (?c (count_attempt (sleep BLEAK_BACKOFF_TIME c2))) = Inl BleakDBusError"
    by (simp add: c2_def c1_def ev)
  then have h3: "?c (count_attempt (sleep BLEAK_BACKOFF_TIME c2)) = (Inl BleakDBusError, c3)"
    by (simp add: c3_def prod_eq_iff)
  have colour: "set_rgb_color failing_write_env (10, 20, 30) fresh = (Inl BleakDBusError, c3)"
    unfolding set_rgb_color_def by (rule three_failed_attempts [OF h1 h2 h3])
  have c3: "written (snd c3) = []" "rgb_color (fst c3) = (10, 20, 30)"
    by (simp_all add: c3_def c2_def c1_def ev)
  have b: "brightness_byte 200 = Inr 12" using brightness_byte_eq [of 200] by simp
  let ?b = "set_brightness_func failing_write_env 200"
  define b1 where "b1 = snd (?b (count_attempt fresh))"
  define b2 where "b2 = snd (?b (count_attempt (sleep BLEAK_BACKOFF_TIME b1)))"
  define b3 where "b3 = snd (?b (count_attempt (sleep BLEAK_BACKOFF_TIME b2)))"
  have "fst (?b (count_attempt fresh)) = Inl BleakDBusError" by (simp add: ev b)
  then have g1: "?b (count_attempt fresh) = (Inl BleakDBusError, b1)"
    by (simp add: b1_def prod_eq_iff)
  have "fst (?b (count_attempt (sleep BLEAK_BACKOFF_TIME b1))) = Inl BleakDBusError"
    by (simp add: b1_def ev b)
  then have g2: "?b (count_attempt (sleep BLEAK_BACKOFF_TIME b1)) = (Inl BleakDBusError, b2)"
    by (simp add: b2_def prod_eq_iff)
  have "fst (?b (count_attempt (sleep BLEAK_BACKOFF_TIME b2))) = Inl BleakDBusError"
    by (simp add: b2_def b1_def ev b)
  then have g3: "?b (count_attempt (sleep BLEAK_BACKOFF_TIME b2)) = (Inl BleakDBusError, b3)"
    by (simp add: b3_def prod_eq_iff)
  have bright: "set_brightness failing_write_env 200 fresh = (Inl BleakDBusError, b3)"
    unfolding set_brightness_def by (rule three_failed_attempts [OF g1 g2 g3])
  have b3: "written (snd b3) = []" "brightness (fst b3) = 200"
    by (simp_all add: b3_def b2_def b1_def ev b)
  show ?thesis
    by (simp add: colour bright c3 b3) (simp add: fresh_def new_instance_def)
qed

lemma floor_0_06: "\<lfloor>real_of_int b * 0.06\<rfloor> = b * 6 div 100"
proof -
  have "real_of_int b * 0.06 = real_of_int (b * 6) / real_of_int 100" by simp
  then show ?thesis by (simp only: floor_divide_of_int_eq)
qed

lemma floor_2_55: "\<lfloor>real_of_int s * 2.55\<rfloor> = s * 255 div 100"
proof -
  have "real_of_int s * 2.55 = real_of_int (s * 255) / real_of_int 100" by simp
  then show ?thesis by (simp only: floor_divide_of_int_eq)
qed

lemma set_brightness_written:
  assumes "set_brightness E b0 (s, w) = (Inr (), s', w')" and "brightness_byte b0 = Inr b"
  shows "written w' = written w @ [(write_uuid s', [0x55, 0x03, 0x01, 0xff, b])]"
proof -
  have "\<exists>\<sigma>. written (snd \<sigma>) = written w \<and> set_brightness_func E b0 \<sigma> = (Inr (), s', w')"
  proof (rule retry_success [where P = "\<lambda>\<sigma>. written (snd \<sigma>) = written w" and E = E])
    show "retry_bluetooth_connection_error E (set_brightness_func E b0) (s, w) = (Inr (), s', w')"
      using assms(1) by (simp add: set_brightness_def)
    show "\<And>\<sigma> err \<sigma>'. written (snd \<sigma>) = written w \<Longrightarrow>
        set_brightness_func E b0 \<sigma> = (Inl err, \<sigma>') \<Longrightarrow> written (snd \<sigma>') = written w"
      using set_brightness_func_frame(3) [OF _ assms(2)] by fastforce
  qed (simp_all add: count_attempt_frame sleep_frame)
  then obtain \<sigma> where \<sigma>: "written (snd \<sigma>) = written w"
    and f: "set_brightness_func E b0 \<sigma> = (Inr (), s', w')" by blast
  show ?thesis using set_brightness_func_frame(3) [OF f assms(2)] \<sigma> by simp
qed

lemma set_effect_speed_written:
  assumes "set_effect_speed E speed (s, w) = (Inr (), s', w')" and "speed_byte speed = Inr b"
  shows "written w' = written w @ [(write_uuid s', [0x55, 0x04, 0x04, b])]"
proof -
  have "\<exists>\<sigma>. written (snd \<sigma>) = written w \<and> set_effect_speed_func E speed \<sigma> = (Inr (), s', w')"
  proof (rule retry_success [where P = "\<lambda>\<sigma>. written (snd \<sigma>) = written w" and E = E])
    show "retry_bluetooth_connection_error E (set_effect_speed_func E speed) (s, w) = (Inr (), s', w')"
      using assms(1) by (simp add: set_effect_speed_def)
    show "\<And>\<sigma> err \<sigma>'. written (snd \<sigma>) = written w \<Longrightarrow>
        set_effect_speed_func E speed \<sigma> = (Inl err, \<sigma>') \<Longrightarrow> written (snd \<sigma>') = written w"
      using set_effect_speed_func_frame(4) [OF _ assms(2)] by fastforce
  qed (simp_all add: count_attempt_frame sleep_frame)
  then obtain \<sigma> where \<sigma>: "written (snd \<sigma>) = written w"
    and f: "set_effect_speed_func E speed \<sigma> = (Inr (), s', w')" by blast
  show ?thesis using set_effect_speed_func_frame(4) [OF f assms(2)] \<sigma> by simp
qed

lemma write_data_succeeds:
  assumes "establish_connection E (established w) = Inr c"
    and "client_get_services E (fetched w) = Inr svc"
    and "client_write_gatt_char E (write_calls w) = None"
  shows "\<exists>s' w'. write_data E d (s, w) = (Inr (), s', w')
           \<and> written w' = written w @ [(write_uuid s', d)]"
  using assms
  by (auto simp: write_data_def ensure_connected_def client_connected_def connect_def
      store_client_def reset_disconnect_timer_def resolve_characteristics_def Let_def
      split: option.splits)

lemma retry_first_success:
  assumes "func (count_attempt \<sigma>) = (Inr u, \<sigma>')"
  shows "retry_bluetooth_connection_error E func \<sigma> = (Inr u, \<sigma>')"
  using assms unfolding retry_bluetooth_connection_error_def attempts_list by simp

lemma set_brightness_func_eq:
  assumes "0 \<le> b" and "b \<le> 255"
  shows "set_brightness_func E b \<sigma> =
           write_data E [0x55, 0x03, 0x01, 0xff, min (b * 6 div 100) 15]
             ((fst \<sigma>)\<lparr>brightness := b\<rparr>, snd \<sigma>)"
proof -
  define B where "B = min (b * 6 div 100) 15"
  have "0 \<le> b * 6 div 100" using assms(1) by (simp add: pos_imp_zdiv_nonneg_iff)
  then have "0 \<le> B" and "B < 256" by (simp_all add: B_def)
  moreover have "brightness_byte b = Inr B" unfolding B_def by (rule brightness_byte_eq [OF assms])
  ultimately show ?thesis
    unfolding B_def [symmetric]
    by (cases \<sigma>) (simp add: set_brightness_func_def bytearray_def)
qed

lemma set_effect_speed_func_eq:
  assumes "0 \<le> a" and "a \<le> 100"
  shows "set_effect_speed_func E a \<sigma> =
           write_data E [0x55, 0x04, 0x04, if a = 100 then 254 else a * 255 div 100] \<sigma>"
proof -
  define S where "S = (if a = 100 then 254 else a * 255 div 100)"
  have "0 \<le> a * 255 div 100" using assms(1) by (simp add: pos_imp_zdiv_nonneg_iff)
  moreover have "a * 255 div 100 \<le> 100 * 255 div 100" using assms(2) by (intro zdiv_mono1) simp_all
  ultimately have "0 \<le> S" and "S < 256" by (simp_all add: S_def)
  moreover have "speed_byte a = Inr S" unfolding S_def by (rule speed_byte_eq [OF assms])
  ultimately show ?thesis
    unfolding S_def [symmetric]
    by (simp add: set_effect_speed_func_def bytearray_def)
qed

lemma set_brightness_returns:
  assumes "0 \<le> b" and "b \<le> 255"
    and "establish_connection E (established w) = Inr c"
    and "client_get_services E (fetched w) = Inr svc"
    and "client_write_gatt_char E (write_calls w) = None"
  shows "\<exists>s' w'. set_brightness E b (s, w) = (Inr (), s', w')
           \<and> written w' = written w @ [(write_uuid s', [0x55, 0x03, 0x01, 0xff, min (b * 6 div 100) 15])]"
proof -
  let ?w = "w\<lparr>attempts := attempts w + 1\<rparr>"
  have "\<exists>s' w'. write_data E [0x55, 0x03, 0x01, 0xff, min (b * 6 div 100) 15]
            (s\<lparr>brightness := b\<rparr>, ?w) = (Inr (), s', w')
          \<and> written w' = written ?w @ [(write_uuid s', [0x55, 0x03, 0x01, 0xff, min (b * 6 div 100) 15])]"
    using assms(3-5) by (intro write_data_succeeds [where c = c and svc = svc]) simp_all
  then obtain s' w' where
    f: "set_brightness_func E b (count_attempt (s, w)) = (Inr (), s', w')"
    and wr: "written w' = written w @ [(write_uuid s', [0x55, 0x03, 0x01, 0xff, min (b * 6 div 100) 15])]"
    using set_brightness_func_eq [OF assms(1,2), of E "count_attempt (s, w)"]
    by (auto simp: count_attempt_def)
  have "set_brightness E b (s, w) = (Inr (), s', w')"
    unfolding set_brightness_def using f by (rule retry_first_success)
  with wr show ?thesis by blast
qed

lemma set_effect_speed_returns:
  assumes "0 \<le> a" and "a \<le> 100"
    and "establish_connection E (established w) = Inr c"
    and "client_get_services E (fetched w) = Inr svc"
    and "client_write_gatt_char E (write_calls w) = None"
  shows "\<exists>s' w'. set_effect_speed E a (s, w) = (Inr (), s', w')
           \<and> written w' = written w
                 @ [(write_uuid s', [0x55, 0x04, 0x04, if a = 100 then 254 else a * 255 div 100])]"
proof -
  let ?w = "w\<lparr>attempts := attempts w + 1\<rparr>"
  let ?p = "[0x55, 0x04, 0x04, if a = 100 then 254 else a * 255 div 100]"
  have "\<exists>s' w'. write_data E ?p (s, ?w) = (Inr (), s', w')
          \<and> written w' = written ?w @ [(write_uuid s', ?p)]"
    using assms(3-5) by (intro write_data_succeeds [where c = c and svc = svc]) simp_all
  then obtain s' w' where
    f: "set_effect_speed_func E a (count_attempt (s, w)) = (Inr (), s', w')"
    and wr: "written w' = written w @ [(write_uuid s', ?p)]"
    using set_effect_speed_func_eq [OF assms(1,2), of E "count_attempt (s, w)"]
    by (auto simp: count_attempt_def)
  have "set_effect_speed E a (s, w) = (Inr (), s', w')"
    unfolding set_effect_speed_def using f by (rule retry_first_success)
  with wr show ?thesis by blast
qed

text \<open>
  Claim C6. Take integers \<open>0 \<le> b1 \<le> b2 \<le> 255\<close> and write \<open>B = min(floor(b * 0.06), 15)\<close>
  for each. In every environment and state, the body of \<open>set_brightness(b)\<close> is the write
  of the five bytes 55 03 01 FF B, made once the reported brightness has been assigned.
  Where the transport accepts the next connection, service fetch and write,
  \<open>set_brightness(b)\<close> returns and exactly that packet has been acknowledged. The wire byte
  of \<open>b1\<close> is at most the wire byte of \<open>b2\<close>.
\<close>

theorem set_brightness_wire_byte:
  assumes "0 \<le> b1" and "b1 \<le> b2" and "b2 \<le> 255"
    and "establish_connection E (established w) = Inr c"
    and "client_get_services E (fetched w) = Inr svc"
    and "client_write_gatt_char E (write_calls w) = None"
  shows "\<exists>B1 B2 s1' w1' s2' w2'.
           B1 = min \<lfloor>real_of_int b1 * 0.06\<rfloor> 15
         \<and> B2 = min \<lfloor>real_of_int b2 * 0.06\<rfloor> 15
         \<and> B1 \<le> B2
         \<and> set_brightness E b1 (s, w) = (Inr (), s1', w1')
         \<and> written w1' = written w @ [(write_uuid s1', [0x55, 0x03, 0x01, 0xff, B1])]
         \<and> set_brightness E b2 (s, w) = (Inr (), s2', w2')
         \<and> written w2' = written w @ [(write_uuid s2', [0x55, 0x03, 0x01, 0xff, B2])]
         \<and> (\<forall>E' \<sigma>. set_brightness_func E' b1 \<sigma> =
                write_data E' [0x55, 0x03, 0x01, 0xff, B1] ((fst \<sigma>)\<lparr>brightness := b1\<rparr>, snd \<sigma>))
         \<and> (\<forall>E' \<sigma>. set_brightness_func E' b2 \<sigma> =
                write_data E' [0x55, 0x03, 0x01, 0xff, B2] ((fst \<sigma>)\<lparr>brightness := b2\<rparr>, snd \<sigma>))"
proof -
  have r1: "0 \<le> b1" "b1 \<le> 255" and r2: "0 \<le> b2" "b2 \<le> 255" using assms(1-3) by simp_all
  have "b1 * 6 div 100 \<le> b2 * 6 div 100" using assms(2) by (intro zdiv_mono1) simp_all
  then have mono: "min (b1 * 6 div 100) 15 \<le> min (b2 * 6 div 100) 15" by simp
  show ?thesis
    unfolding floor_0_06
    using mono set_brightness_returns [OF r1 assms(4-6), of s]
      set_brightness_returns [OF r2 assms(4-6), of s]
      set_brightness_func_eq [OF r1] set_brightness_func_eq [OF r2]
    by blast
qed

theorem set_brightness_wire_byte_witness:
  "fst (set_brightness steady_env 100 fresh) = Inr ()
   \<and> fst (set_brightness steady_env 200 fresh) = Inr ()
   \<and> map snd (written (snd (snd (set_brightness steady_env 100 fresh)))) = [[0x55, 0x03, 0x01, 0xff, 6]]
   \<and> map snd (written (snd (snd (set_brightness steady_env 200 fresh)))) = [[0x55, 0x03, 0x01, 0xff, 12]]"
proof -
  have f1: "\<lfloor>real_of_int 100 * 0.06\<rfloor> = 6" and f2: "\<lfloor>real_of_int 200 * 0.06\<rfloor> = 12"
    unfolding floor_0_06 by simp_all
  have a: "(0::int) \<le> 100" "(100::int) \<le> 200" "(200::int) \<le> 255" by simp_all
  have e: "establish_connection steady_env (established new_world) = Inr \<lparr>services = sample_services\<rparr>"
    "client_get_services steady_env (fetched new_world) = Inr sample_services"
    "client_write_gatt_char steady_env (write_calls new_world) = None"
    by (simp_all add: steady_env_def)
  from set_brightness_wire_byte [OF a e, of "new_instance 30"]
  show ?thesis
    unfolding f1 f2 fresh_def by (auto simp: new_world_def)
qed

lemma speed_50_and_100:
  "fst (set_effect_speed steady_env 50 fresh) = Inr ()"
  "fst (set_effect_speed steady_env 100 fresh) = Inr ()"
  "written (snd (snd (set_effect_speed steady_env 50 fresh))) = [(Some 1, [0x55, 0x04, 0x04, 0x7F])]"
  "written (snd (snd (set_effect_speed steady_env 100 fresh))) = [(Some 1, [0x55, 0x04, 0x04, 0xFE])]"
proof -
  have b1: "speed_byte 50 = Inr 127" using speed_byte_eq [of 50] by simp
  have b2: "speed_byte 100 = Inr 254" using speed_byte_eq [of 100] by simp
  note ev = set_effect_speed_def retry_bluetooth_connection_error_def attempts_list
    set_effect_speed_func_def bytearray_def link_eval
  show "fst (set_effect_speed steady_env 50 fresh) = Inr ()"
    "fst (set_effect_speed steady_env 100 fresh) = Inr ()"
    "written (snd (snd (set_effect_speed steady_env 50 fresh))) = [(Some 1, [0x55, 0x04, 0x04, 0x7F])]"
    "written (snd (snd (set_effect_speed steady_env 100 fresh))) = [(Some 1, [0x55, 0x04, 0x04, 0xFE])]"
    by (simp_all add: ev b1 b2)
qed

text \<open>
  Claim C2, as the code has it. Take integers \<open>0 \<le> a1 \<le> a2 \<le> 100\<close>. In every environment
  and state, the body of \<open>set_effect_speed(a)\<close> is the write of four bytes 55 04 04 S, and
  where the transport accepts the next connection, service fetch and write,
  \<open>set_effect_speed(a)\<close> returns and exactly that packet has been acknowledged. For speeds
  up to 99, \<open>S = clamp(floor(a * 2.55), 0, 255)\<close>: \<open>int\<close> truncates, it does not round. The
  wire byte of \<open>a1\<close> is at most the wire byte of \<open>a2\<close>.
\<close>

theorem set_effect_speed_wire_byte:
  assumes "0 \<le> a1" and "a1 \<le> a2" and "a2 \<le> 100"
    and "establish_connection E (established w) = Inr c"
    and "client_get_services E (fetched w) = Inr svc"
    and "client_write_gatt_char E (write_calls w) = None"
  shows "\<exists>S1 S2 s1' w1' s2' w2'.
           (a1 = 100 \<or> S1 = min (max \<lfloor>real_of_int a1 * 2.55\<rfloor> 0) 255)
         \<and> (a2 = 100 \<or> S2 = min (max \<lfloor>real_of_int a2 * 2.55\<rfloor> 0) 255)
         \<and> S1 \<le> S2
         \<and> set_effect_speed E a1 (s, w) = (Inr (), s1', w1')
         \<and> written w1' = written w @ [(write_uuid s1', [0x55, 0x04, 0x04, S1])]
         \<and> set_effect_speed E a2 (s, w) = (Inr (), s2', w2')
         \<and> written w2' = written w @ [(write_uuid s2', [0x55, 0x04, 0x04, S2])]
         \<and> (\<forall>E' \<sigma>. set_effect_speed_func E' a1 \<sigma> = write_data E' [0x55, 0x04, 0x04, S1] \<sigma>)
         \<and> (\<forall>E' \<sigma>. set_effect_speed_func E' a2 \<sigma> = write_data E' [0x55, 0x04, 0x04, S2] \<sigma>)"
proof -
  let ?S = "\<lambda>a::int. if a = 100 then 254 else a * 255 div 100"
  have r1: "0 \<le> a1" "a1 \<le> 100" and r2: "0 \<le> a2" "a2 \<le> 100" using assms(1-3) by simp_all
  have c1: "a1 = 100 \<or> ?S a1 = min (max (a1 * 255 div 100) 0) 255"
  proof (cases "a1 = 100")
    case False
    have "0 \<le> a1 * 255 div 100" using r1(1) by (simp add: pos_imp_zdiv_nonneg_iff)
    moreover have "a1 * 255 div 100 \<le> 100 * 255 div 100" using r1(2) by (intro zdiv_mono1) simp_all
    ultimately show ?thesis using False by simp
  qed simp
  have c2: "a2 = 100 \<or> ?S a2 = min (max (a2 * 255 div 100) 0) 255"
  proof (cases "a2 = 100")
    case False
    have "0 \<le> a2 * 255 div 100" using r2(1) by (simp add: pos_imp_zdiv_nonneg_iff)
    moreover have "a2 * 255 div 100 \<le> 100 * 255 div 100" using r2(2) by (intro zdiv_mono1) simp_all
    ultimately show ?thesis using False by simp
  qed simp
  have mono: "?S a1 \<le> ?S a2"
  proof (cases "a2 = 100")
    case True
    show ?thesis
    proof (cases "a1 = 100")
      case True
      then show ?thesis using \<open>a2 = 100\<close> by simp
    next
      case False
      then have "a1 \<le> 99" using assms(2,3) by simp
      then have "a1 * 255 div 100 \<le> 99 * 255 div 100" by (intro zdiv_mono1) simp_all
      then show ?thesis using False \<open>a2 = 100\<close> by simp
    qed
  next
    case False
    then have n: "a1 \<noteq> 100" using assms(2,3) by simp
    have "a1 * 255 div 100 \<le> a2 * 255 div 100" using assms(2) by (intro zdiv_mono1) simp_all
    then show ?thesis using False n by simp
  qed
  show ?thesis
    unfolding floor_2_55
    using c1 c2 mono set_effect_speed_returns [OF r1 assms(4-6), of s]
      set_effect_speed_returns [OF r2 assms(4-6), of s]
      set_effect_speed_func_eq [OF r1] set_effect_speed_func_eq [OF r2]
    by blast
qed

theorem set_effect_speed_wire_byte_witness:
  "fst (set_effect_speed steady_env 50 fresh) = Inr ()
   \<and> fst (set_effect_speed steady_env 99 fresh) = Inr ()
   \<and> map snd (written (snd (snd (set_effect_speed steady_env 50 fresh)))) = [[0x55, 0x04, 0x04, 0x7F]]
   \<and> map snd (written (snd (snd (set_effect_speed steady_env 99 fresh)))) = [[0x55, 0x04, 0x04, 252]]"
proof -
  have f1: "\<lfloor>real_of_int 50 * 2.55\<rfloor> = 127" and f2: "\<lfloor>real_of_int 99 * 2.55\<rfloor> = 252"
    unfolding floor_2_55 by simp_all
  have a: "(0::int) \<le> 50" "(50::int) \<le> 99" "(99::int) \<le> 100" by simp_all
  have e: "establish_connection steady_env (established new_world) = Inr \<lparr>services = sample_services\<rparr>"
    "client_get_services steady_env (fetched new_world) = Inr sample_services"
    "client_write_gatt_char steady_env (write_calls new_world) = None"
    by (simp_all add: steady_env_def)
  from set_effect_speed_wire_byte [OF a e, of "new_instance 30"]
  show ?thesis
    unfolding f1 f2 fresh_def by (auto simp: new_world_def)
qed

text \<open>
  Claim C2 as stated fails: \<open>set_effect_speed(50)\<close> writes the wire byte 0x7F, where
  \<open>clamp(round(50 * 2.55), 0, 255)\<close> is 0x80, and \<open>set_effect_speed(100)\<close> writes 0xFE, where
  the claim's formula gives 0xFF.
\<close>

theorem set_effect_speed_truncates:
  "fst (set_effect_speed steady_env 50 fresh) = Inr ()
   \<and> written (snd (snd (set_effect_speed steady_env 50 fresh))) = [(Some 1, [0x55, 0x04, 0x04, 0x7F])]
   \<and> min (max (round (50 * 2.55 :: real)) 0) 255 = 0x80
   \<and> fst (set_effect_speed steady_env 100 fresh) = Inr ()
   \<and> written (snd (snd (set_effect_speed steady_env 100 fresh))) = [(Some 1, [0x55, 0x04, 0x04, 0xFE])]
   \<and> min (max (round (100 * 2.55 :: real)) 0) 255 = 0xFF"
proof -
  have "round (50 * 2.55 :: real) = 128" by (simp add: round_def)
  moreover have "round (100 * 2.55 :: real) = 255" by simp
  ultimately show ?thesis using speed_50_and_100 by simp
qed

end
